theory Spec2Isabelle
  imports Complex_Main "HOL-Library.Multiset"
begin

section \<open>Order lifecycle and promotion pricing of the shopping system\<close>

text \<open>
  The development embeds the C++ classes \<^verbatim>\<open>Promotion\<close>, \<^verbatim>\<open>PromotionManager\<close>,
  \<^verbatim>\<open>Order\<close> and \<^verbatim>\<open>OrderManager\<close>.

  Conventions of the embedding.
  \<^item> \<^verbatim>\<open>std::string\<close> is \<open>string\<close>, a list of bytes; the Chinese literals of the
    source are written as their UTF-8 bytes.
  \<^item> \<^verbatim>\<open>time_t\<close> and \<^verbatim>\<open>int\<close> are \<open>int\<close>, with the machine arithmetic written out
    where the source can leave the range: the increment in \<open>generatePromotionId\<close>
    and the subtraction of two \<^verbatim>\<open>time_t\<close> values in the scheduler's scan
    (\<open>time_t_diff\<close>). The stock arithmetic of the order constructor stays inside
    \<^verbatim>\<open>int\<close> for the quantities the callers admit (positive, at most the stock).
  \<^item> \<^verbatim>\<open>double\<close> amounts are \<open>real\<close>: sums, products and comparisons are the ones
    the source writes, taken exactly, with no rounding and no NaN. The amounts in
    the examples are small integers, which a double holds exactly; the example
    rates 0.8 and 0.9 are only compared.
  \<^item> Every call of \<^verbatim>\<open>time(nullptr)\<close> is a parameter: the instant the clock returned.
    Within one pricing computation all validity checks read the same instant \<open>now\<close>.
  \<^item> An exception is the \<open>Inl\<close> branch of a sum.
\<close>

subsection \<open>Text helpers of the C++ library\<close>

type_synonym time_t = int

datatype std_error = invalid_argument | out_of_range

text \<open>\<^verbatim>\<open>isspace\<close> and \<^verbatim>\<open>isdigit\<close> in the C locale.\<close>

definition isspace :: "char \<Rightarrow> bool" where
  "isspace c = (c = CHR '' '' \<or> c = CHR 0x09 \<or> c = CHR 0x0A \<or> c = CHR 0x0B
                 \<or> c = CHR 0x0C \<or> c = CHR 0x0D)"

definition isdigit :: "char \<Rightarrow> bool" where
  "isdigit c = (48 \<le> (of_char c :: nat) \<and> (of_char c :: nat) \<le> 57)"

definition digit_value :: "char \<Rightarrow> nat" where
  "digit_value c = of_char c - 48"

definition digits_value :: "string \<Rightarrow> nat" where
  "digits_value ds = foldl (\<lambda>a c. 10 * a + digit_value c) 0 ds"

text \<open>
  \<^verbatim>\<open>strtol\<close>/\<^verbatim>\<open>strtoll\<close> in base 10, before the range check: leading white space is
  skipped, one sign is accepted, the longest run of digits is read and what follows
  it is ignored. No digit at all is \<open>None\<close>.
\<close>

definition strto_int :: "string \<Rightarrow> int option" where
  "strto_int s =
     (let s1 = dropWhile isspace s;
          neg = (case s1 of [] \<Rightarrow> False | c # _ \<Rightarrow> c = CHR ''-'');
          s2 = (case s1 of [] \<Rightarrow> []
                 | c # r \<Rightarrow> if c = CHR ''-'' \<or> c = CHR ''+'' then r else s1);
          ds = takeWhile isdigit s2
      in if ds = [] then None
         else Some (if neg then - int (digits_value ds) else int (digits_value ds)))"

definition INT_MAX :: int where
  "INT_MAX = 2147483647"

definition INT_MIN :: int where
  "INT_MIN = - 2147483648"

definition LLONG_MAX :: int where
  "LLONG_MAX = 9223372036854775807"

definition LLONG_MIN :: int where
  "LLONG_MIN = - 9223372036854775808"

text \<open>
  \<^verbatim>\<open>time_t\<close> is a signed 64-bit integer on the platforms the program is built for
  (the loader reads it with \<^verbatim>\<open>std::stoll\<close>). The difference of two \<^verbatim>\<open>time_t\<close> values
  is computed in that type: a difference outside the range wraps around modulo
  \<open>2 ^ 64\<close>, as the subtraction instruction does (the C++ standard leaves a signed
  overflow undefined).
\<close>

definition time_t_diff :: "time_t \<Rightarrow> time_t \<Rightarrow> time_t" where
  "time_t_diff a b = (a - b + 2 ^ 63) mod 2 ^ 64 - 2 ^ 63"

text \<open>\<^verbatim>\<open>std::stoi\<close> and \<^verbatim>\<open>std::stoll\<close>: the two exceptions they throw are the \<open>Inl\<close> values.\<close>

definition stoi :: "string \<Rightarrow> std_error + int" where
  "stoi s =
     (case strto_int s of
        None \<Rightarrow> Inl invalid_argument
      | Some v \<Rightarrow> if v < INT_MIN \<or> INT_MAX < v then Inl out_of_range else Inr v)"

definition stoll :: "string \<Rightarrow> std_error + int" where
  "stoll s =
     (case strto_int s of
        None \<Rightarrow> Inl invalid_argument
      | Some v \<Rightarrow> if v < LLONG_MIN \<or> LLONG_MAX < v then Inl out_of_range else Inr v)"

text \<open>Decimal output of \<^verbatim>\<open>operator<<\<close> for integers.\<close>

definition digit_char :: "nat \<Rightarrow> char" where
  "digit_char d = ''0123456789'' ! d"

fun put_nat :: "nat \<Rightarrow> string" where
  "put_nat n = (if n < 10 then [digit_char n] else put_nat (n div 10) @ [digit_char (n mod 10)])"

declare put_nat.simps [simp del]

definition put_int :: "int \<Rightarrow> string" where
  "put_int i = (if i < 0 then CHR ''-'' # put_nat (nat (- i)) else put_nat (nat i))"

text \<open>\<^verbatim>\<open>std::setfill('0') << std::setw(w)\<close> in front of a number without sign.\<close>

definition setw_fill0 :: "nat \<Rightarrow> string \<Rightarrow> string" where
  "setw_fill0 w s = replicate (w - length s) (CHR ''0'') @ s"

text \<open>
  The parts of the C++ implementation that the repository leaves to the platform:
  \<^verbatim>\<open>std::hash<std::string>\<close>, the text \<^verbatim>\<open>operator<<\<close> prints for a double, and
  \<^verbatim>\<open>std::stod\<close>.
\<close>

record Platform =
  hash_string :: "string \<Rightarrow> nat"
  put_double :: "real \<Rightarrow> string"
  stod :: "string \<Rightarrow> std_error + real"

subsection \<open>Promotion\<close>

datatype PromotionType = DISCOUNT | FULL_REDUCTION

record Promotion =
  promotionId :: string
  promotionName :: string
  promotionType :: PromotionType
  isActive :: bool
  startTime :: time_t
  endTime :: time_t
  targetItemId :: string
  discountRate :: real
  thresholdAmount :: real
  reductionAmount :: real

text \<open>\<^verbatim>\<open>Promotion::isValid\<close>; \<open>currentTime\<close> is what \<^verbatim>\<open>time(nullptr)\<close> returned.\<close>

definition isValid :: "time_t \<Rightarrow> Promotion \<Rightarrow> bool" where
  "isValid currentTime p =
     (if \<not> isActive p then False
      else currentTime \<ge> startTime p \<and> currentTime \<le> endTime p)"

definition isApplicableToItem :: "Promotion \<Rightarrow> string \<Rightarrow> bool" where
  "isApplicableToItem p iid =
     (if promotionType p \<noteq> DISCOUNT then False
      else if targetItemId p = ''-1'' then True
      else targetItemId p = iid)"

definition calculateDiscountForItem :: "Promotion \<Rightarrow> real \<Rightarrow> real" where
  "calculateDiscountForItem p originalPrice =
     (if promotionType p \<noteq> DISCOUNT then originalPrice
      else originalPrice * discountRate p)"

definition calculateReduction :: "Promotion \<Rightarrow> real \<Rightarrow> real" where
  "calculateReduction p totalAmount =
     (if promotionType p \<noteq> FULL_REDUCTION then 0
      else if totalAmount \<ge> thresholdAmount p then reductionAmount p
      else 0)"

text \<open>\<^verbatim>\<open>static_cast<int>\<close> of a double truncates towards zero.\<close>

definition trunc_to_int :: "real \<Rightarrow> int" where
  "trunc_to_int x = (if x < 0 then \<lceil>x\<rceil> else \<lfloor>x\<rfloor>)"

text \<open>
  \<^verbatim>\<open>Promotion::getDisplayTag\<close>. The three Chinese words are the bytes
  E6 8A 98 (the discount mark), E6 BB A1 ("spend") and E5 87 8F ("save").
\<close>

definition getDisplayTag :: "Promotion \<Rightarrow> string" where
  "getDisplayTag p =
     (if promotionType p = DISCOUNT
      then put_int (trunc_to_int (discountRate p * 10)) @ [CHR 0xE6, CHR 0x8A, CHR 0x98]
      else [CHR 0xE6, CHR 0xBB, CHR 0xA1] @ put_int (trunc_to_int (thresholdAmount p))
           @ [CHR 0xE5, CHR 0x87, CHR 0x8F] @ put_int (trunc_to_int (reductionAmount p)))"

subsection \<open>Item\<close>

record Item =
  itemId :: string
  itemName :: string
  category :: string
  price :: real
  description :: string
  stock :: int

text \<open>
  A basket is a \<^verbatim>\<open>vector<pair<shared_ptr<Item>, int>>\<close>. The items are shared objects:
  the basket holds references, and the objects live in a store.
\<close>

type_synonym item_ref = nat
type_synonym item_store = "item_ref \<Rightarrow> Item"
type_synonym basket = "(item_ref \<times> int) list"

subsection \<open>PromotionManager\<close>

text \<open>
  \<^verbatim>\<open>PromotionManager::getActiveDiscountForItem\<close>: the loop over \<open>promotions\<close> with the
  two locals \<open>bestDiscount\<close> (a null pointer is \<open>None\<close>) and \<open>bestRate\<close>.
\<close>

fun bestDiscountLoop ::
  "time_t \<Rightarrow> string \<Rightarrow> Promotion list \<Rightarrow> Promotion option \<Rightarrow> real \<Rightarrow> Promotion option" where
  "bestDiscountLoop now iid [] bestDiscount bestRate = bestDiscount"
| "bestDiscountLoop now iid (p # ps) bestDiscount bestRate =
     (if promotionType p = DISCOUNT \<and> isValid now p \<and> isApplicableToItem p iid
      then (if discountRate p < bestRate
            then bestDiscountLoop now iid ps (Some p) (discountRate p)
            else bestDiscountLoop now iid ps bestDiscount bestRate)
      else bestDiscountLoop now iid ps bestDiscount bestRate)"

definition getActiveDiscountForItem :: "time_t \<Rightarrow> Promotion list \<Rightarrow> string \<Rightarrow> Promotion option" where
  "getActiveDiscountForItem now promotions iid = bestDiscountLoop now iid promotions None 1"

text \<open>
  \<^verbatim>\<open>PromotionManager::getActiveFullReductions\<close>. \<^verbatim>\<open>std::sort\<close> orders by threshold; the
  model sorts by insertion, which fixes the order of reductions with equal thresholds
  where \<^verbatim>\<open>std::sort\<close> leaves it open.
\<close>

definition getActiveFullReductions :: "time_t \<Rightarrow> Promotion list \<Rightarrow> Promotion list" where
  "getActiveFullReductions now promotions =
     sort_key thresholdAmount
       (filter (\<lambda>p. promotionType p = FULL_REDUCTION \<and> isValid now p) promotions)"

record PromotionResult =
  originalTotal :: real
  afterDiscountTotal :: real
  finalTotal :: real
  totalSavings :: real
  appliedPromotions :: "string list"
  itemDiscounts :: "(string \<times> real) list"
  totalReduction :: real

text \<open>First loop of \<^verbatim>\<open>calculatePromotionResult\<close>: one basket line after the other.\<close>

fun discountLoop ::
  "time_t \<Rightarrow> Promotion list \<Rightarrow> item_store \<Rightarrow> basket \<Rightarrow> PromotionResult \<Rightarrow> PromotionResult" where
  "discountLoop now promotions st [] result = result"
| "discountLoop now promotions st ((r, quantity) # rest) result =
     (let item = st r;
          itemOriginalPrice = price item * real_of_int quantity;
          result1 = result\<lparr>originalTotal := originalTotal result + itemOriginalPrice\<rparr>
      in case getActiveDiscountForItem now promotions (itemId item) of
           Some discount \<Rightarrow>
             (let discountedPrice = calculateDiscountForItem discount (price item) * real_of_int quantity;
                  savingsForItem = itemOriginalPrice - discountedPrice
              in discountLoop now promotions st rest
                   (result1\<lparr>afterDiscountTotal := afterDiscountTotal result1 + discountedPrice,
                            itemDiscounts := itemDiscounts result1 @ [(itemName item, savingsForItem)],
                            appliedPromotions := appliedPromotions result1
                               @ [itemName item @ '' '' @ getDisplayTag discount]\<rparr>))
         | None \<Rightarrow>
             discountLoop now promotions st rest
               (result1\<lparr>afterDiscountTotal := afterDiscountTotal result1 + itemOriginalPrice\<rparr>))"

text \<open>Second loop: the full reductions, each tested against \<open>afterDiscountTotal\<close>.\<close>

fun reductionLoop :: "Promotion list \<Rightarrow> PromotionResult \<Rightarrow> PromotionResult" where
  "reductionLoop [] result = result"
| "reductionLoop (reduction # rest) result =
     (let amount = calculateReduction reduction (afterDiscountTotal result)
      in if amount > 0
         then reductionLoop rest
                (result\<lparr>totalReduction := totalReduction result + amount,
                        appliedPromotions := appliedPromotions result @ [getDisplayTag reduction]\<rparr>)
         else reductionLoop rest result)"

text \<open>
  \<^verbatim>\<open>PromotionManager::calculatePromotionResult\<close>. The struct is default-initialised:
  the three totals are set to zero, the two vectors start empty, and \<open>finalTotal\<close>
  and \<open>totalSavings\<close> are assigned at the end.
\<close>

definition calculatePromotionResult ::
  "time_t \<Rightarrow> Promotion list \<Rightarrow> item_store \<Rightarrow> basket \<Rightarrow> PromotionResult" where
  "calculatePromotionResult now promotions st items =
     (let result0 = \<lparr>originalTotal = 0, afterDiscountTotal = 0, finalTotal = 0,
                     totalSavings = 0, appliedPromotions = [], itemDiscounts = [],
                     totalReduction = 0\<rparr>;
          result1 = discountLoop now promotions st items result0;
          result2 = reductionLoop (getActiveFullReductions now promotions) result1;
          result3 = result2\<lparr>finalTotal := afterDiscountTotal result2 - totalReduction result2\<rparr>
      in result3\<lparr>totalSavings := originalTotal result3 - finalTotal result3\<rparr>)"

text \<open>
  \<^verbatim>\<open>PromotionManager::generatePromotionId\<close>. \<open>maxNumLoop\<close> is the loop over the
  promotions; an id whose number \<^verbatim>\<open>stoi\<close> rejects is skipped by the empty handler.
  \<open>maxNum + 1\<close> is signed arithmetic: at \<open>INT_MAX\<close> the addition overflows, which the
  C++ standard leaves undefined, and the model returns \<open>None\<close>.
\<close>

fun maxNumLoop :: "Promotion list \<Rightarrow> int \<Rightarrow> int" where
  "maxNumLoop [] maxNum = maxNum"
| "maxNumLoop (p # ps) maxNum =
     (let pid = promotionId p
      in if length pid \<ge> 8 \<and> take 5 pid = ''PROMO''
         then (case stoi (drop 5 pid) of
                 Inr num \<Rightarrow> if num > maxNum then maxNumLoop ps num else maxNumLoop ps maxNum
               | Inl e \<Rightarrow> maxNumLoop ps maxNum)
         else maxNumLoop ps maxNum)"

definition generatePromotionId :: "Promotion list \<Rightarrow> string option" where
  "generatePromotionId promotions =
     (let maxNum = maxNumLoop promotions 0
      in if maxNum = INT_MAX then None
         else Some (''PROMO'' @ setw_fill0 3 (put_int (maxNum + 1))))"

subsection \<open>Order\<close>

datatype OrderStatus = PENDING | SHIPPED | DELIVERED

record OrderItem =
  itemId_oi :: string
  itemName_oi :: string
  price_oi :: real
  quantity_oi :: int

record Order =
  orderId :: string
  userId :: string
  items :: "OrderItem list"
  orderTime :: time_t
  totalAmount :: real
  shippingAddress :: string
  status :: OrderStatus
  statusChangeTime :: time_t

text \<open>\<^verbatim>\<open>InsufficientStockException(itemName, requested, available)\<close>.\<close>

datatype order_error = InsufficientStockException string int int

text \<open>
  \<^verbatim>\<open>IItemRepository\<close> as the order constructor uses it: the repository's items and
  the rows its \<^verbatim>\<open>saveToFile\<close> last wrote.
\<close>

record ItemRepository =
  repo_items :: "item_ref list"
  repo_writable :: bool
  repo_rows :: "Item list"

definition saveToFile_items :: "item_store \<Rightarrow> ItemRepository \<Rightarrow> bool \<times> ItemRepository" where
  "saveToFile_items st m =
     (if \<not> repo_writable m then (False, m)
      else (True, m\<lparr>repo_rows := map st (repo_items m)\<rparr>))"

definition generateOrderId :: "Platform \<Rightarrow> string \<Rightarrow> time_t \<Rightarrow> string" where
  "generateOrderId pf uid timestamp =
     (let combined = uid @ ''_'' @ put_int timestamp;
          hashValue = hash_string pf combined
      in ''ORD'' @ setw_fill0 16 (put_nat hashValue))"

text \<open>
  The loop of the constructor \<^verbatim>\<open>Order::Order(userId, cartItems, shippingAddress,
  itemManager)\<close>. Each line is checked and then committed to the shared item before
  the next line is looked at; a \<^verbatim>\<open>throw\<close> leaves the loop with the store as it is
  at that moment.
\<close>

fun cartLoop ::
  "basket \<Rightarrow> item_store \<Rightarrow> OrderItem list \<Rightarrow> real
     \<Rightarrow> (order_error + OrderItem list \<times> real) \<times> item_store" where
  "cartLoop [] st its tot = (Inr (its, tot), st)"
| "cartLoop ((r, q) # rest) st its tot =
     (let item = st r
      in if q > stock item
         then (Inl (InsufficientStockException (itemName item) q (stock item)), st)
         else cartLoop rest
                (st(r := item\<lparr>stock := stock item - q\<rparr>))
                (its @ [\<lparr>itemId_oi = itemId item, itemName_oi = itemName item,
                          price_oi = price item, quantity_oi = q\<rparr>])
                (tot + price item * real_of_int q))"

text \<open>
  The constructor: \<open>now\<close> is the one clock reading it takes. The result is the
  exception or the order, with the item store and the repository afterwards.
\<close>

definition Order_new ::
  "Platform \<Rightarrow> time_t \<Rightarrow> string \<Rightarrow> basket \<Rightarrow> string \<Rightarrow> ItemRepository option \<Rightarrow> item_store
     \<Rightarrow> (order_error + Order) \<times> item_store \<times> ItemRepository option" where
  "Order_new pf now uid cartItems address itemManager st =
     (case cartLoop cartItems st [] 0 of
        (Inl e, st') \<Rightarrow> (Inl e, st', itemManager)
      | (Inr (its, tot), st') \<Rightarrow>
          (Inr \<lparr>orderId = generateOrderId pf uid now, userId = uid, items = its,
                orderTime = now, totalAmount = tot, shippingAddress = address,
                status = PENDING, statusChangeTime = now\<rparr>,
           st',
           map_option (\<lambda>m. snd (saveToFile_items st' m)) itemManager))"

text \<open>\<^verbatim>\<open>Order::setStatus\<close>; \<open>t\<close> is the clock reading of the call.\<close>

definition setStatus :: "time_t \<Rightarrow> OrderStatus \<Rightarrow> Order \<Rightarrow> Order" where
  "setStatus t newStatus ord = ord\<lparr>status := newStatus, statusChangeTime := t\<rparr>"

text \<open>The status names, in UTF-8: "awaiting shipment", "shipped", "received".\<close>

definition str_pending :: string where
  "str_pending = [CHR 0xE5, CHR 0xBE, CHR 0x85, CHR 0xE5, CHR 0x8F, CHR 0x91,
                  CHR 0xE8, CHR 0xB4, CHR 0xA7]"

definition str_shipped :: string where
  "str_shipped = [CHR 0xE5, CHR 0xB7, CHR 0xB2, CHR 0xE5, CHR 0x8F, CHR 0x91,
                  CHR 0xE8, CHR 0xB4, CHR 0xA7]"

definition str_delivered :: string where
  "str_delivered = [CHR 0xE5, CHR 0xB7, CHR 0xB2, CHR 0xE7, CHR 0xAD, CHR 0xBE,
                    CHR 0xE6, CHR 0x94, CHR 0xB6]"

text \<open>
  \<^verbatim>\<open>Order::getStatusString\<close>; the \<^verbatim>\<open>default\<close> branch of the switch is not reached by
  any of the three enumerators.
\<close>

fun getStatusString :: "Order \<Rightarrow> string" where
  "getStatusString ord =
     (case status ord of
        PENDING \<Rightarrow> str_pending
      | SHIPPED \<Rightarrow> str_shipped
      | DELIVERED \<Rightarrow> str_delivered)"

definition stringToStatus :: "string \<Rightarrow> OrderStatus" where
  "stringToStatus statusStr =
     (if statusStr = str_pending \<or> statusStr = ''PENDING'' then PENDING
      else if statusStr = str_shipped \<or> statusStr = ''SHIPPED'' then SHIPPED
      else if statusStr = str_delivered \<or> statusStr = ''DELIVERED'' then DELIVERED
      else PENDING)"

subsection \<open>OrderManager\<close>

text \<open>
  The file at \<open>filePath\<close>: whether it can be opened for reading and for writing, its
  text, and how often it has been rewritten.
\<close>

record OrderFile =
  readable :: bool
  writable :: bool
  content :: string
  writes :: nat

record OrderManager =
  orders :: "Order list"
  ordersFile :: OrderFile
  itemManager :: "ItemRepository option"
  autoUpdateEnabled :: bool
  pendingToShippedSeconds :: int
  shippedToDeliveredSeconds :: int

text \<open>
  \<^verbatim>\<open>std::getline(stream, field, delim)\<close> in a \<^verbatim>\<open>while\<close> loop: the text between
  delimiters; nothing is produced for the empty rest after a final delimiter.
\<close>

fun getlines :: "char \<Rightarrow> string \<Rightarrow> string \<Rightarrow> string list" where
  "getlines delim acc [] = (if acc = [] then [] else [acc])"
| "getlines delim acc (c # cs) =
     (if c = delim then acc # getlines delim [] cs else getlines delim (acc @ [c]) cs)"

definition trim_ws :: "char \<Rightarrow> bool" where
  "trim_ws c = (c = CHR '' '' \<or> c = CHR 0x09 \<or> c = CHR 0x0A \<or> c = CHR 0x0D)"

definition trim :: "string \<Rightarrow> string" where
  "trim str = rev (dropWhile trim_ws (rev (dropWhile trim_ws str)))"

definition parseCSVLine :: "string \<Rightarrow> string list" where
  "parseCSVLine line = map trim (getlines (CHR '','') [] line)"

text \<open>A field that \<^verbatim>\<open>getline\<close> could not read stays the empty string.\<close>

definition field_at :: "string list \<Rightarrow> nat \<Rightarrow> string" where
  "field_at fs i = (if i < length fs then fs ! i else [])"

text \<open>\<^verbatim>\<open>OrderManager::parseOrderItems\<close>: an item that does not parse is dropped.\<close>

fun parseOrderItemsLoop :: "Platform \<Rightarrow> string list \<Rightarrow> OrderItem list" where
  "parseOrderItemsLoop pf [] = []"
| "parseOrderItemsLoop pf (itemStr # rest) =
     (if itemStr = [] then parseOrderItemsLoop pf rest
      else (let fs = getlines (CHR '':'') [] itemStr;
                iid = field_at fs 0; name = field_at fs 1;
                priceStr = field_at fs 2; quantityStr = field_at fs 3
            in case stod pf priceStr of
                 Inl e \<Rightarrow> parseOrderItemsLoop pf rest
               | Inr p \<Rightarrow>
                   (case stoi quantityStr of
                      Inl e \<Rightarrow> parseOrderItemsLoop pf rest
                    | Inr q \<Rightarrow> \<lparr>itemId_oi = iid, itemName_oi = name, price_oi = p,
                                 quantity_oi = q\<rparr> # parseOrderItemsLoop pf rest)))"

definition parseOrderItems :: "Platform \<Rightarrow> string \<Rightarrow> OrderItem list" where
  "parseOrderItems pf itemsStr = parseOrderItemsLoop pf (getlines (CHR '';'') [] itemsStr)"

fun orderItemsToString :: "Platform \<Rightarrow> OrderItem list \<Rightarrow> string" where
  "orderItemsToString pf [] = []"
| "orderItemsToString pf (it # rest) =
     itemId_oi it @ '':'' @ itemName_oi it @ '':'' @ put_double pf (price_oi it) @ '':''
       @ put_int (quantity_oi it)
       @ (if rest = [] then [] else '';'' @ orderItemsToString pf rest)"

text \<open>
  One data line of \<^verbatim>\<open>loadFromFile\<close>: \<open>None\<close> when the line has fewer than eight
  fields or one of the three numbers throws (the handler drops the line).
\<close>

definition loadLine :: "Platform \<Rightarrow> string \<Rightarrow> Order option" where
  "loadLine pf line =
     (let fields = parseCSVLine line
      in if length fields \<ge> 8
         then (case stoll (fields ! 3) of
                 Inl e \<Rightarrow> None
               | Inr t \<Rightarrow>
                   (case stod pf (fields ! 4) of
                      Inl e \<Rightarrow> None
                    | Inr tot \<Rightarrow>
                        (case stoll (fields ! 7) of
                           Inl e \<Rightarrow> None
                         | Inr tc \<Rightarrow>
                             Some \<lparr>orderId = fields ! 0, userId = fields ! 1,
                                   items = parseOrderItems pf (fields ! 2),
                                   orderTime = t, totalAmount = tot,
                                   shippingAddress = fields ! 5,
                                   status = stringToStatus (fields ! 6),
                                   statusChangeTime = tc\<rparr>)))
         else None)"

fun loadLines :: "Platform \<Rightarrow> string list \<Rightarrow> Order list" where
  "loadLines pf [] = []"
| "loadLines pf (line # rest) =
     (if line = [] then loadLines pf rest
      else (case loadLine pf line of
              None \<Rightarrow> loadLines pf rest
            | Some ord \<Rightarrow> ord # loadLines pf rest))"

text \<open>\<^verbatim>\<open>OrderManager::loadFromFile\<close>: the first line is the header.\<close>

definition loadFromFile :: "Platform \<Rightarrow> OrderManager \<Rightarrow> bool \<times> OrderManager" where
  "loadFromFile pf om =
     (if \<not> readable (ordersFile om) then (True, om)
      else (True, om\<lparr>orders := loadLines pf (drop 1 (getlines (CHR 0x0A) [] (content (ordersFile om))))\<rparr>))"

definition csv_header :: string where
  "csv_header = ''order_id,user_id,items,order_time,total_amount,shipping_address,status,status_change_time''"

definition orderRow :: "Platform \<Rightarrow> Order \<Rightarrow> string" where
  "orderRow pf ord =
     orderId ord @ '','' @ userId ord @ '','' @ orderItemsToString pf (items ord) @ '',''
       @ put_int (orderTime ord) @ '','' @ put_double pf (totalAmount ord) @ '',''
       @ shippingAddress ord @ '','' @ getStatusString ord @ '',''
       @ put_int (statusChangeTime ord)"

text \<open>\<^verbatim>\<open>OrderManager::saveToFile\<close>: the whole collection is written again.\<close>

definition saveToFile :: "Platform \<Rightarrow> OrderManager \<Rightarrow> bool \<times> OrderManager" where
  "saveToFile pf om =
     (if \<not> writable (ordersFile om) then (False, om)
      else (True,
            om\<lparr>ordersFile := (ordersFile om)\<lparr>
                 content := csv_header @ [CHR 0x0A]
                    @ concat (map (\<lambda>ord. orderRow pf ord @ [CHR 0x0A]) (orders om)),
                 writes := writes (ordersFile om) + 1\<rparr>\<rparr>))"

text \<open>
  \<^verbatim>\<open>OrderManager::createOrder\<close>. A C++ call ends by returning or by throwing: \<open>Inl\<close>
  is an exception leaving the call, \<open>Inr None\<close> the null pointer, \<open>Inr (Some ord)\<close> the
  new order. Both handlers of the source return the null pointer.
\<close>

definition createOrder ::
  "Platform \<Rightarrow> time_t \<Rightarrow> string \<Rightarrow> basket \<Rightarrow> string \<Rightarrow> OrderManager \<Rightarrow> item_store
     \<Rightarrow> (order_error + Order option) \<times> OrderManager \<times> item_store" where
  "createOrder pf now uid cartItems address om st =
     (case Order_new pf now uid cartItems address (itemManager om) st of
        (Inl e, st', m) \<Rightarrow> (Inr None, om, st')
      | (Inr ord, st', m) \<Rightarrow>
          (let om1 = om\<lparr>orders := orders om @ [ord], itemManager := m\<rparr>;
               om2 = snd (saveToFile pf om1)
           in (Inr (Some ord), om2, st')))"

definition findOrderById :: "string \<Rightarrow> OrderManager \<Rightarrow> Order option" where
  "findOrderById oid om = find (\<lambda>ord. orderId ord = oid) (orders om)"

text \<open>The order the pointer from \<open>findOrderById\<close> refers to is changed in place.\<close>

fun updateFirst :: "('a \<Rightarrow> bool) \<Rightarrow> ('a \<Rightarrow> 'a) \<Rightarrow> 'a list \<Rightarrow> 'a list" where
  "updateFirst P f [] = []"
| "updateFirst P f (x # xs) = (if P x then f x # xs else x # updateFirst P f xs)"

definition updateOrderStatus ::
  "Platform \<Rightarrow> time_t \<Rightarrow> string \<Rightarrow> OrderStatus \<Rightarrow> OrderManager \<Rightarrow> bool \<times> OrderManager" where
  "updateOrderStatus pf t oid newStatus om =
     (case findOrderById oid om of
        None \<Rightarrow> (False, om)
      | Some ord \<Rightarrow>
          (let om1 = om\<lparr>orders := updateFirst (\<lambda>x. orderId x = oid) (setStatus t newStatus) (orders om)\<rparr>
           in (True, snd (saveToFile pf om1))))"

text \<open>
  One pass of the \<^verbatim>\<open>for\<close> loop in \<^verbatim>\<open>autoUpdateOrderStatus\<close>. \<open>currentTime\<close> is read
  once before the loop; \<open>clk i\<close> is the clock reading of the \<^verbatim>\<open>setStatus\<close> call on
  the order at position \<open>i\<close>. \<open>timeSinceStatusChange\<close> is a \<^verbatim>\<open>time_t\<close>, the result
  of a \<^verbatim>\<open>time_t\<close> subtraction; the two durations are \<^verbatim>\<open>int\<close> and are widened for
  the comparison.
\<close>

fun scanLoop ::
  "(nat \<Rightarrow> time_t) \<Rightarrow> time_t \<Rightarrow> int \<Rightarrow> int \<Rightarrow> nat \<Rightarrow> Order list \<Rightarrow> bool \<Rightarrow> Order list \<times> bool" where
  "scanLoop clk currentTime p2s s2d i [] needSave = ([], needSave)"
| "scanLoop clk currentTime p2s s2d i (ord # rest) needSave =
     (let timeSinceStatusChange = time_t_diff currentTime (statusChangeTime ord)
      in if status ord = PENDING \<and> timeSinceStatusChange \<ge> p2s
         then (let (rest', ns) = scanLoop clk currentTime p2s s2d (Suc i) rest True
               in (setStatus (clk i) SHIPPED ord # rest', ns))
         else if status ord = SHIPPED \<and> timeSinceStatusChange \<ge> s2d
         then (let (rest', ns) = scanLoop clk currentTime p2s s2d (Suc i) rest True
               in (setStatus (clk i) DELIVERED ord # rest', ns))
         else (let (rest', ns) = scanLoop clk currentTime p2s s2d (Suc i) rest needSave
               in (ord # rest', ns)))"

text \<open>The body of the \<^verbatim>\<open>while\<close> loop after the sleep: one scan, then at most one save.\<close>

definition autoUpdateScan ::
  "Platform \<Rightarrow> (nat \<Rightarrow> time_t) \<Rightarrow> time_t \<Rightarrow> OrderManager \<Rightarrow> OrderManager" where
  "autoUpdateScan pf clk currentTime om =
     (let (orders', needSave) =
            scanLoop clk currentTime (pendingToShippedSeconds om)
              (shippedToDeliveredSeconds om) 0 (orders om) False;
          om1 = om\<lparr>orders := orders'\<rparr>
      in if needSave then snd (saveToFile pf om1) else om1)"

text \<open>
  \<^verbatim>\<open>autoUpdateOrderStatus\<close>: the thread scans once per wake-up as long as the flag
  is set. The list holds the clock readings of the wake-ups that happen.
\<close>

fun autoUpdateOrderStatus ::
  "Platform \<Rightarrow> ((nat \<Rightarrow> time_t) \<times> time_t) list \<Rightarrow> OrderManager \<Rightarrow> OrderManager" where
  "autoUpdateOrderStatus pf [] om = om"
| "autoUpdateOrderStatus pf ((clk, currentTime) # wakeups) om =
     (if autoUpdateEnabled om
      then autoUpdateOrderStatus pf wakeups (autoUpdateScan pf clk currentTime om)
      else om)"

subsection \<open>The orders mutex\<close>

text \<open>
  What one call does with \<^verbatim>\<open>ordersMutex\<close>, with the order collection and with the
  order file, step by step in program order. A \<^verbatim>\<open>std::lock_guard\<close> takes the mutex
  where it is declared (\<open>Acquire\<close>) and gives it back at the end of its block
  (\<open>Release\<close>). \<open>Mutate\<close> is a \<^verbatim>\<open>push_back\<close> on the collection or a \<^verbatim>\<open>setStatus\<close> on
  one of its orders; \<open>OpenFile\<close> is the successful construction of the
  \<^verbatim>\<open>std::ofstream\<close>, which empties the file; \<open>WriteHeader\<close> and \<open>WriteRows\<close> are the
  output of the header line and of the loop over the orders.
\<close>

datatype sync_step = Acquire | Release | Mutate | OpenFile | WriteHeader | WriteRows

text \<open>
  \<^verbatim>\<open>saveToFile\<close> opens the file and writes the header line; only then does it
  declare its \<^verbatim>\<open>lock_guard\<close>, which lives until the function returns. When the file
  cannot be opened the function returns at once.
\<close>

definition saveToFile_steps :: "OrderFile \<Rightarrow> sync_step list" where
  "saveToFile_steps f =
     (if \<not> writable f then []
      else [OpenFile, WriteHeader, Acquire, WriteRows, Release])"

text \<open>
  \<^verbatim>\<open>createOrder\<close>: the constructor runs first; the \<^verbatim>\<open>lock_guard\<close> is in a block of its
  own around \<^verbatim>\<open>push_back\<close>; \<^verbatim>\<open>saveToFile\<close> is called after that block.
\<close>

definition createOrder_steps ::
  "Platform \<Rightarrow> time_t \<Rightarrow> string \<Rightarrow> basket \<Rightarrow> string \<Rightarrow> OrderManager \<Rightarrow> item_store
     \<Rightarrow> sync_step list" where
  "createOrder_steps pf now uid cartItems address om st =
     (case Order_new pf now uid cartItems address (itemManager om) st of
        (Inl e, st', m) \<Rightarrow> []
      | (Inr ord, st', m) \<Rightarrow>
          [Acquire, Mutate, Release] @ saveToFile_steps (ordersFile om))"

text \<open>\<^verbatim>\<open>findOrderById\<close> holds the mutex from its first line to its return.\<close>

definition findOrderById_steps :: "sync_step list" where
  "findOrderById_steps = [Acquire, Release]"

text \<open>
  \<^verbatim>\<open>updateOrderStatus\<close>: \<^verbatim>\<open>findOrderById\<close>, then \<^verbatim>\<open>setStatus\<close> on the order found, then
  \<^verbatim>\<open>saveToFile\<close>; the function declares no \<^verbatim>\<open>lock_guard\<close> of its own.
\<close>

definition updateOrderStatus_steps :: "string \<Rightarrow> OrderManager \<Rightarrow> sync_step list" where
  "updateOrderStatus_steps oid om =
     findOrderById_steps
       @ (case findOrderById oid om of
            None \<Rightarrow> []
          | Some ord \<Rightarrow> [Mutate] @ saveToFile_steps (ordersFile om))"

text \<open>
  The scan of \<^verbatim>\<open>autoUpdateOrderStatus\<close>: the \<^verbatim>\<open>lock_guard\<close> is in a block around the
  \<^verbatim>\<open>for\<close> loop, each \<^verbatim>\<open>setStatus\<close> of the loop sets \<open>needSave\<close>, and \<^verbatim>\<open>saveToFile\<close> is
  called after the block when \<open>needSave\<close> is set.
\<close>

fun scanLoop_steps :: "time_t \<Rightarrow> int \<Rightarrow> int \<Rightarrow> Order list \<Rightarrow> sync_step list" where
  "scanLoop_steps currentTime p2s s2d [] = []"
| "scanLoop_steps currentTime p2s s2d (ord # rest) =
     (let timeSinceStatusChange = time_t_diff currentTime (statusChangeTime ord)
      in if status ord = PENDING \<and> timeSinceStatusChange \<ge> p2s
         then Mutate # scanLoop_steps currentTime p2s s2d rest
         else if status ord = SHIPPED \<and> timeSinceStatusChange \<ge> s2d
         then Mutate # scanLoop_steps currentTime p2s s2d rest
         else scanLoop_steps currentTime p2s s2d rest)"

definition autoUpdateScan_steps :: "time_t \<Rightarrow> OrderManager \<Rightarrow> sync_step list" where
  "autoUpdateScan_steps currentTime om =
     (let loop = scanLoop_steps currentTime (pendingToShippedSeconds om)
                   (shippedToDeliveredSeconds om) (orders om);
          needSave = (Mutate \<in> set loop)
      in [Acquire] @ loop @ [Release]
           @ (if needSave then saveToFile_steps (ordersFile om) else []))"

section \<open>Notions used in the statements\<close>

text \<open>
  A discount candidate for an item: of Discount kind, valid at \<open>now\<close>, applicable
  to the item.
\<close>

definition isDiscountCandidate :: "time_t \<Rightarrow> string \<Rightarrow> Promotion \<Rightarrow> bool" where
  "isDiscountCandidate now iid p =
     (promotionType p = DISCOUNT \<and> isValid now p \<and> isApplicableToItem p iid)"

text \<open>A currently valid full reduction.\<close>

definition isActiveFullReduction :: "time_t \<Rightarrow> Promotion \<Rightarrow> bool" where
  "isActiveFullReduction now p = (promotionType p = FULL_REDUCTION \<and> isValid now p)"

text \<open>What one basket line costs after its best discount.\<close>

definition lineAfterDiscount ::
  "time_t \<Rightarrow> Promotion list \<Rightarrow> item_store \<Rightarrow> item_ref \<times> int \<Rightarrow> real" where
  "lineAfterDiscount now promotions st line =
     (case getActiveDiscountForItem now promotions (itemId (st (fst line))) of
        Some discount \<Rightarrow>
          calculateDiscountForItem discount (price (st (fst line))) * real_of_int (snd line)
      | None \<Rightarrow> price (st (fst line)) * real_of_int (snd line))"

text \<open>
  The number \<^verbatim>\<open>generatePromotionId\<close> reads from one id, if it reads one: the id has
  at least eight characters, starts with PROMO, and \<^verbatim>\<open>stoi\<close> accepts the rest.
\<close>

definition scannedNumber :: "string \<Rightarrow> int option" where
  "scannedNumber pid =
     (if length pid \<ge> 8 \<and> take 5 pid = ''PROMO''
      then (case stoi (drop 5 pid) of Inr num \<Rightarrow> Some num | Inl e \<Rightarrow> None)
      else None)"

definition scannedNumbers :: "Promotion list \<Rightarrow> int list" where
  "scannedNumbers promotions = List.map_filter (\<lambda>p. scannedNumber (promotionId p)) promotions"

text \<open>
  Every line of the basket asks for no more than the stock its item has left when
  the line is reached (a basket may name the same item twice).
\<close>

fun stockSuffices :: "item_store \<Rightarrow> basket \<Rightarrow> bool" where
  "stockSuffices st [] = True"
| "stockSuffices st ((r, q) # rest) =
     (q \<le> stock (st r) \<and> stockSuffices (st(r := (st r)\<lparr>stock := stock (st r) - q\<rparr>)) rest)"

text \<open>
  The successive states of one order under a sequence of \<^verbatim>\<open>setStatus\<close> calls, each
  with the clock reading of the call.
\<close>

fun orderStates :: "Order \<Rightarrow> (time_t \<times> OrderStatus) list \<Rightarrow> Order list" where
  "orderStates ord [] = [ord]"
| "orderStates ord ((t, s) # calls) = ord # orderStates (setStatus t s ord) calls"

text \<open>
  The time that has passed from the last status change of an order to
  \<open>currentTime\<close>, and whether it fits a \<^verbatim>\<open>time_t\<close>.
\<close>

definition elapsed :: "time_t \<Rightarrow> Order \<Rightarrow> int" where
  "elapsed currentTime ord = currentTime - statusChangeTime ord"

definition elapsedFits :: "time_t \<Rightarrow> Order \<Rightarrow> bool" where
  "elapsedFits currentTime ord =
     (LLONG_MIN \<le> elapsed currentTime ord \<and> elapsed currentTime ord \<le> LLONG_MAX)"

text \<open>
  An order the scan moves on: Pending for at least \<open>p2s\<close> seconds, or Shipped for at
  least \<open>s2d\<close> seconds, by the elapsed time as the scan computes it.
\<close>

definition dueToShip :: "time_t \<Rightarrow> int \<Rightarrow> Order \<Rightarrow> bool" where
  "dueToShip currentTime p2s ord =
     (status ord = PENDING \<and> time_t_diff currentTime (statusChangeTime ord) \<ge> p2s)"

definition dueToDeliver :: "time_t \<Rightarrow> int \<Rightarrow> Order \<Rightarrow> bool" where
  "dueToDeliver currentTime s2d ord =
     (status ord = SHIPPED \<and> time_t_diff currentTime (statusChangeTime ord) \<ge> s2d)"

text \<open>The position of a status in the life cycle Pending, Shipped, Delivered.\<close>

fun statusRank :: "OrderStatus \<Rightarrow> nat" where
  "statusRank PENDING = 0"
| "statusRank SHIPPED = 1"
| "statusRank DELIVERED = 2"

text \<open>Some order has another status after the scan than before it.\<close>

definition someTransition :: "Order list \<Rightarrow> Order list \<Rightarrow> bool" where
  "someTransition before after =
     (\<exists>k < length before. status (after ! k) \<noteq> status (before ! k))"

text \<open>
  Each step of a call with the critical section it lies in: \<open>Some n\<close> when the call
  holds the mutex for the \<open>n\<close>-th time (counted from 0), \<open>None\<close> when the call does
  not hold the mutex and another thread can take it. \<open>cur\<close> is the section the call
  is in, \<open>n\<close> the number of sections it has left.
\<close>

fun sections :: "nat option \<Rightarrow> nat \<Rightarrow> sync_step list \<Rightarrow> (sync_step \<times> nat option) list" where
  "sections cur n [] = []"
| "sections cur n (Acquire # ss) = (Acquire, Some n) # sections (Some n) n ss"
| "sections cur n (Release # ss) = (Release, cur) # sections None (Suc n) ss"
| "sections cur n (s # ss) = (s, cur) # sections cur n ss"

text \<open>A step that changes the collection or writes to the file.\<close>

definition changesOrWrites :: "sync_step \<Rightarrow> bool" where
  "changesOrWrites s = (s = Mutate \<or> s = OpenFile \<or> s = WriteHeader \<or> s = WriteRows)"

text \<open>
  The mutation and its persistence write lie in one critical section: every step
  of the call that changes the collection or writes to the file lies in a critical
  section, and all of them in the same one.
\<close>

definition oneCriticalSection :: "sync_step list \<Rightarrow> bool" where
  "oneCriticalSection ss =
     (case map snd (filter (\<lambda>x. changesOrWrites (fst x)) (sections None 0 ss)) of
        [] \<Rightarrow> True
      | c # cs \<Rightarrow> c \<noteq> None \<and> list_all (\<lambda>x. x = c) cs)"

text \<open>
  The steps of one persistence write, after a first critical section of the call:
  the file is opened and the header written with the mutex free, the rows are
  written in a second critical section.
\<close>

definition writeAfterRelease :: "(sync_step \<times> nat option) list" where
  "writeAfterRelease =
     [(OpenFile, None), (WriteHeader, None), (Acquire, Some 1), (WriteRows, Some 1),
      (Release, Some 1)]"

text \<open>The six texts \<open>stringToStatus\<close> recognises.\<close>

definition statusNames :: "string set" where
  "statusNames =
     {str_pending, ''PENDING'', str_shipped, ''SHIPPED'', str_delivered, ''DELIVERED''}"

section \<open>Example inputs\<close>

text \<open>
  A stand-in platform to run the model on concrete inputs. The theorems below hold
  for every platform.
\<close>

definition pf_example :: Platform where
  "pf_example =
     \<lparr>hash_string = (\<lambda>s. 6),
      put_double = (\<lambda>x. put_int \<lfloor>x\<rfloor>),
      stod = (\<lambda>s. case strto_int s of None \<Rightarrow> Inl invalid_argument
                                     | Some v \<Rightarrow> Inr (real_of_int v))\<rparr>"

definition apple :: Item where
  "apple = \<lparr>itemId = ''A'', itemName = ''apple'', category = ''fruit'', price = 10,
            description = [], stock = 5\<rparr>"

definition pear :: Item where
  "pear = \<lparr>itemId = ''B'', itemName = ''pear'', category = ''fruit'', price = 4,
           description = [], stock = 1\<rparr>"

definition sofa :: Item where
  "sofa = \<lparr>itemId = ''S'', itemName = ''sofa'', category = ''home'', price = 600,
           description = [], stock = 3\<rparr>"

text \<open>Reference 0 is the apple, 2 the sofa, every other reference the pear.\<close>

definition example_store :: item_store where
  "example_store = (\<lambda>r. if r = 0 then apple else if r = 2 then sofa else pear)"

definition example_manager :: OrderManager where
  "example_manager =
     \<lparr>orders = [],
      ordersFile = \<lparr>readable = True, writable = True, content = [], writes = 0\<rparr>,
      itemManager = None, autoUpdateEnabled = True,
      pendingToShippedSeconds = 10, shippedToDeliveredSeconds = 20\<rparr>"

text \<open>The order user u1 gets at instant 100 for two apples.\<close>

definition example_order :: Order where
  "example_order =
     \<lparr>orderId = ''ORD0000000000000006'', userId = ''u1'',
      items = [\<lparr>itemId_oi = ''A'', itemName_oi = ''apple'', price_oi = 10, quantity_oi = 2\<rparr>],
      orderTime = 100, totalAmount = 20, shippingAddress = ''addr'',
      status = PENDING, statusChangeTime = 100\<rparr>"

text \<open>
  A manager with four orders: Pending since 100, Shipped since 105, Delivered
  since 90, Shipped since 95.
\<close>

definition example_queue :: OrderManager where
  "example_queue =
     example_manager\<lparr>orders :=
       [example_order,
        example_order\<lparr>status := SHIPPED, statusChangeTime := 105\<rparr>,
        example_order\<lparr>status := DELIVERED, statusChangeTime := 90\<rparr>,
        example_order\<lparr>status := SHIPPED, statusChangeTime := 95\<rparr>]\<rparr>"

text \<open>The manager that holds the order of two apples.\<close>

definition example_holder :: OrderManager where
  "example_holder = example_manager\<lparr>orders := [example_order]\<rparr>"

text \<open>An order file whose one record has the status text LOST.\<close>

definition example_line :: string where
  "example_line = ''ORD7,u1,A:apple:10:2,100,20,addr,LOST,100''"

definition example_file :: OrderFile where
  "example_file =
     \<lparr>readable = True, writable = True,
      content = ''order_id,user_id'' @ [CHR 0x0A] @ example_line @ [CHR 0x0A],
      writes = 0\<rparr>"





definition loaded_order :: Order where
  "loaded_order =
     \<lparr>orderId = ''ORD7'', userId = ''u1'',
      items = [\<lparr>itemId_oi = ''A'', itemName_oi = ''apple'', price_oi = 10, quantity_oi = 2\<rparr>],
      orderTime = 100, totalAmount = 20, shippingAddress = ''addr'',
      status = PENDING, statusChangeTime = 100\<rparr>"

definition spend300 :: Promotion where
  "spend300 = \<lparr>promotionId = ''PROMO001'', promotionName = ''spend 300'',
     promotionType = FULL_REDUCTION, isActive = True, startTime = 0, endTime = 1000,
     targetItemId = [], discountRate = 1, thresholdAmount = 300, reductionAmount = 50\<rparr>"

definition spend500 :: Promotion where
  "spend500 = \<lparr>promotionId = ''PROMO002'', promotionName = ''spend 500'',
     promotionType = FULL_REDUCTION, isActive = True, startTime = 0, endTime = 1000,
     targetItemId = [], discountRate = 1, thresholdAmount = 500, reductionAmount = 100\<rparr>"

definition all90 :: Promotion where
  "all90 = \<lparr>promotionId = ''PROMO003'', promotionName = ''all items'',
     promotionType = DISCOUNT, isActive = True, startTime = 0, endTime = 1000,
     targetItemId = ''-1'', discountRate = 9 / 10, thresholdAmount = 0, reductionAmount = 0\<rparr>"

definition apple80 :: Promotion where
  "apple80 = \<lparr>promotionId = ''PROMO004'', promotionName = ''apples'',
     promotionType = DISCOUNT, isActive = True, startTime = 0, endTime = 1000,
     targetItemId = ''A'', discountRate = 8 / 10, thresholdAmount = 0, reductionAmount = 0\<rparr>"

definition all80 :: Promotion where
  "all80 = \<lparr>promotionId = ''PROMO005'', promotionName = ''all items again'',
     promotionType = DISCOUNT, isActive = True, startTime = 0, endTime = 1000,
     targetItemId = ''-1'', discountRate = 8 / 10, thresholdAmount = 0, reductionAmount = 0\<rparr>"

definition apple50_off :: Promotion where
  "apple50_off = \<lparr>promotionId = ''PROMO006'', promotionName = ''switched off'',
     promotionType = DISCOUNT, isActive = False, startTime = 0, endTime = 1000,
     targetItemId = ''A'', discountRate = 5 / 10, thresholdAmount = 0, reductionAmount = 0\<rparr>"

definition promo12 :: Promotion where
  "promo12 = \<lparr>promotionId = ''PROMO12'', promotionName = ''two digits'',
     promotionType = DISCOUNT, isActive = True, startTime = 0, endTime = 1000,
     targetItemId = ''-1'', discountRate = 8 / 10, thresholdAmount = 0, reductionAmount = 0\<rparr>"

definition promo041 :: Promotion where
  "promo041 = \<lparr>promotionId = ''PROMO041'', promotionName = ''three digits'',
     promotionType = DISCOUNT, isActive = True, startTime = 0, endTime = 1000,
     targetItemId = ''-1'', discountRate = 8 / 10, thresholdAmount = 0, reductionAmount = 0\<rparr>"

definition promo123x :: Promotion where
  "promo123x = \<lparr>promotionId = ''PROMO123x'', promotionName = ''letter after the digits'',
     promotionType = DISCOUNT, isActive = True, startTime = 0, endTime = 1000,
     targetItemId = ''-1'', discountRate = 8 / 10, thresholdAmount = 0, reductionAmount = 0\<rparr>"

definition promo_eleven_digits :: Promotion where
  "promo_eleven_digits = \<lparr>promotionId = ''PROMO99999999999'', promotionName = ''eleven digits'',
     promotionType = DISCOUNT, isActive = True, startTime = 0, endTime = 1000,
     targetItemId = ''-1'', discountRate = 8 / 10, thresholdAmount = 0, reductionAmount = 0\<rparr>"

definition promo_int_max :: Promotion where
  "promo_int_max = \<lparr>promotionId = ''PROMO2147483647'', promotionName = ''largest int'',
     promotionType = DISCOUNT, isActive = True, startTime = 0, endTime = 1000,
     targetItemId = ''-1'', discountRate = 8 / 10, thresholdAmount = 0, reductionAmount = 0\<rparr>"

section \<open>Pricing\<close>

subsection \<open>The best discount of an item\<close>

text \<open>
  The loop keeps either its starting pair, when no candidate is below the starting
  rate, or the first candidate of lowest rate.
\<close>

lemma bestDiscountLoop_inv:
  "(bestDiscountLoop now iid ps b r = b \<and>
      (\<forall>p \<in> set (filter (isDiscountCandidate now iid) ps). r \<le> discountRate p))
   \<or> (\<exists>pre q post. filter (isDiscountCandidate now iid) ps = pre @ q # post
         \<and> bestDiscountLoop now iid ps b r = Some q \<and> discountRate q < r
         \<and> (\<forall>p \<in> set pre. discountRate q < discountRate p)
         \<and> (\<forall>p \<in> set post. discountRate q \<le> discountRate p))"
proof (induction ps arbitrary: b r)
  case Nil
  then show ?case by simp
next
  case (Cons p ps)
  let ?C = "filter (isDiscountCandidate now iid) ps"
  show ?case
  proof (cases "isDiscountCandidate now iid p")
    case False
    then have "bestDiscountLoop now iid (p # ps) b r = bestDiscountLoop now iid ps b r"
      by (auto simp: isDiscountCandidate_def)
    with False Cons.IH [of b r] show ?thesis by simp
  next
    case cand: True
    show ?thesis
    proof (cases "discountRate p < r")
      case True
      then have eq: "bestDiscountLoop now iid (p # ps) b r
                   = bestDiscountLoop now iid ps (Some p) (discountRate p)"
        using cand by (simp add: isDiscountCandidate_def)
      from Cons.IH [of "Some p" "discountRate p"] show ?thesis
      proof
        assume h: "bestDiscountLoop now iid ps (Some p) (discountRate p) = Some p \<and>
                   (\<forall>x \<in> set ?C. discountRate p \<le> discountRate x)"
        have "filter (isDiscountCandidate now iid) (p # ps) = [] @ p # ?C"
          using cand by simp
        with h eq True show ?thesis by (metis empty_iff list.set(1))
      next
        assume "\<exists>pre q post. ?C = pre @ q # post
           \<and> bestDiscountLoop now iid ps (Some p) (discountRate p) = Some q
           \<and> discountRate q < discountRate p
           \<and> (\<forall>x \<in> set pre. discountRate q < discountRate x)
           \<and> (\<forall>x \<in> set post. discountRate q \<le> discountRate x)"
        then obtain pre q post where h: "?C = pre @ q # post"
           "bestDiscountLoop now iid ps (Some p) (discountRate p) = Some q"
           "discountRate q < discountRate p"
           "\<forall>x \<in> set pre. discountRate q < discountRate x"
           "\<forall>x \<in> set post. discountRate q \<le> discountRate x" by blast
        have "filter (isDiscountCandidate now iid) (p # ps) = (p # pre) @ q # post"
          using cand h(1) by simp
        moreover have "\<forall>x \<in> set (p # pre). discountRate q < discountRate x"
          using h(3,4) by simp
        moreover have "discountRate q < r" using h(3) True by simp
        ultimately have "filter (isDiscountCandidate now iid) (p # ps) = (p # pre) @ q # post
           \<and> bestDiscountLoop now iid (p # ps) b r = Some q \<and> discountRate q < r
           \<and> (\<forall>x \<in> set (p # pre). discountRate q < discountRate x)
           \<and> (\<forall>x \<in> set post. discountRate q \<le> discountRate x)"
          using eq h(2,5) by simp
        then show ?thesis by blast
      qed
    next
      case False
      then have eq: "bestDiscountLoop now iid (p # ps) b r = bestDiscountLoop now iid ps b r"
        using cand by (simp add: isDiscountCandidate_def)
      from Cons.IH [of b r] show ?thesis
      proof
        assume "bestDiscountLoop now iid ps b r = b \<and> (\<forall>x \<in> set ?C. r \<le> discountRate x)"
        with eq False cand show ?thesis by auto
      next
        assume "\<exists>pre q post. ?C = pre @ q # post
           \<and> bestDiscountLoop now iid ps b r = Some q
           \<and> discountRate q < r
           \<and> (\<forall>x \<in> set pre. discountRate q < discountRate x)
           \<and> (\<forall>x \<in> set post. discountRate q \<le> discountRate x)"
        then obtain pre q post where h: "?C = pre @ q # post"
           "bestDiscountLoop now iid ps b r = Some q"
           "discountRate q < r"
           "\<forall>x \<in> set pre. discountRate q < discountRate x"
           "\<forall>x \<in> set post. discountRate q \<le> discountRate x" by blast
        have "filter (isDiscountCandidate now iid) (p # ps) = (p # pre) @ q # post"
          using cand h(1) by simp
        moreover have "\<forall>x \<in> set (p # pre). discountRate q < discountRate x"
          using h(3,4) False by auto
        ultimately have "filter (isDiscountCandidate now iid) (p # ps) = (p # pre) @ q # post
           \<and> bestDiscountLoop now iid (p # ps) b r = Some q \<and> discountRate q < r
           \<and> (\<forall>x \<in> set (p # pre). discountRate q < discountRate x)
           \<and> (\<forall>x \<in> set post. discountRate q \<le> discountRate x)"
          using eq h(2,3,5) by simp
        then show ?thesis by blast
      qed
    qed
  qed
qed

text \<open>
  The function starts the loop with the null pointer and the rate 1.0: with no
  assumption on the rates, it returns the null pointer when no candidate is below
  1.0, and otherwise the first candidate of lowest rate, which is below 1.0.
\<close>

lemma getActiveDiscountForItem_inv:
  "(getActiveDiscountForItem now promotions iid = None \<and>
      (\<forall>p \<in> set (filter (isDiscountCandidate now iid) promotions). 1 \<le> discountRate p))
   \<or> (\<exists>pre q post. filter (isDiscountCandidate now iid) promotions = pre @ q # post
         \<and> getActiveDiscountForItem now promotions iid = Some q \<and> discountRate q < 1
         \<and> (\<forall>p \<in> set pre. discountRate q < discountRate p)
         \<and> (\<forall>p \<in> set post. discountRate q \<le> discountRate p))"
  unfolding getActiveDiscountForItem_def by (rule bestDiscountLoop_inv)

text \<open>
  Claim C5. For every item id and catalog, \<open>getActiveDiscountForItem\<close> returns,
  among the promotions that are of Discount kind, currently valid and applicable to
  the item, the one with the lowest \<open>discountRate\<close>, the first in storage order when
  several tie on the lowest rate, and none when there is no such promotion.

  The candidates in storage order are \<open>pre @ q # post\<close>: \<open>q\<close> is returned, every
  candidate before it has a strictly higher rate, every candidate after it a rate at
  least as high. The catalog is one of the data model, where a discount rate lies
  strictly between 0 and 1; the administrator commands (\<^verbatim>\<open>updateDiscountRate\<close>, the
  menu that adds a discount) reject any other rate. Only the upper bound is used.
\<close>

theorem getActiveDiscountForItem_lowest_rate:
  assumes "\<forall>p \<in> set promotions. promotionType p = DISCOUNT \<longrightarrow> discountRate p < 1"
  shows "(filter (isDiscountCandidate now iid) promotions = []
            \<longrightarrow> getActiveDiscountForItem now promotions iid = None)
       \<and> (filter (isDiscountCandidate now iid) promotions \<noteq> []
            \<longrightarrow> (\<exists>pre q post.
                   filter (isDiscountCandidate now iid) promotions = pre @ q # post
                   \<and> getActiveDiscountForItem now promotions iid = Some q
                   \<and> (\<forall>p \<in> set pre. discountRate q < discountRate p)
                   \<and> (\<forall>p \<in> set post. discountRate q \<le> discountRate p)))"
proof -
  let ?C = "filter (isDiscountCandidate now iid) promotions"
  have below: "\<forall>p \<in> set ?C. discountRate p < 1"
    using assms by (auto simp: isDiscountCandidate_def)
  from getActiveDiscountForItem_inv [of now promotions iid] show ?thesis
  proof
    assume h: "getActiveDiscountForItem now promotions iid = None \<and>
               (\<forall>p \<in> set ?C. 1 \<le> discountRate p)"
    have "?C = []"
    proof (cases ?C)
      case Nil
      then show ?thesis .
    next
      case (Cons x xs)
      then have "x \<in> set ?C" by simp
      with h below have "1 \<le> discountRate x" "discountRate x < 1" by blast+
      then show ?thesis by simp
    qed
    with h show ?thesis by simp
  next
    assume "\<exists>pre q post. ?C = pre @ q # post
         \<and> getActiveDiscountForItem now promotions iid = Some q \<and> discountRate q < 1
         \<and> (\<forall>p \<in> set pre. discountRate q < discountRate p)
         \<and> (\<forall>p \<in> set post. discountRate q \<le> discountRate p)"
    then obtain pre q post where h: "?C = pre @ q # post"
        "getActiveDiscountForItem now promotions iid = Some q"
        "\<forall>p \<in> set pre. discountRate q < discountRate p"
        "\<forall>p \<in> set post. discountRate q \<le> discountRate p" by blast
    from h(1) have "?C \<noteq> []" by simp
    moreover from h have "\<exists>pre q post. ?C = pre @ q # post
         \<and> getActiveDiscountForItem now promotions iid = Some q
         \<and> (\<forall>p \<in> set pre. discountRate q < discountRate p)
         \<and> (\<forall>p \<in> set post. discountRate q \<le> discountRate p)" by blast
    ultimately show ?thesis by blast
  qed
qed

text \<open>
  The theorem at a catalog of four discounts, all of a rate below 1: 0.9 on
  everything, 0.8 on apples, 0.8 on everything, and a switched-off 0.5 on apples.
  For the apple the candidates are the first three, and the first of the two 0.8
  discounts is returned. For the pear, with only the two apple discounts in the
  catalog, there is no candidate and nothing is returned.
\<close>

theorem getActiveDiscountForItem_lowest_rate_witness:
  "discountRate all90 < 1 \<and> discountRate apple80 < 1 \<and> discountRate all80 < 1
   \<and> discountRate apple50_off < 1
   \<and> filter (isDiscountCandidate 5 ''A'') [all90, apple80, all80, apple50_off]
       = [all90] @ apple80 # [all80]
   \<and> getActiveDiscountForItem 5 [all90, apple80, all80, apple50_off] ''A'' = Some apple80
   \<and> filter (isDiscountCandidate 5 ''B'') [apple80, apple50_off] = []
   \<and> getActiveDiscountForItem 5 [apple80, apple50_off] ''B'' = None"
proof -
  have rates: "discountRate all90 < 1" "discountRate apple80 < 1" "discountRate all80 < 1"
      "discountRate apple50_off < 1"
    by (simp_all add: all90_def apple80_def all80_def apple50_off_def)
  then have h: "\<forall>p \<in> set [all90, apple80, all80, apple50_off].
             promotionType p = DISCOUNT \<longrightarrow> discountRate p < 1"
    by simp
  from rates have h': "\<forall>p \<in> set [apple80, apple50_off].
             promotionType p = DISCOUNT \<longrightarrow> discountRate p < 1"
    by simp
  have c: "filter (isDiscountCandidate 5 ''A'') [all90, apple80, all80, apple50_off]
             = [all90] @ apple80 # [all80]"
    by (simp add: isDiscountCandidate_def isValid_def isApplicableToItem_def
        all90_def apple80_def all80_def apple50_off_def)
  from getActiveDiscountForItem_lowest_rate [OF h, of 5 "''A''"] c
  obtain pre q post where r: "[all90] @ apple80 # [all80] = pre @ q # post"
      "getActiveDiscountForItem 5 [all90, apple80, all80, apple50_off] ''A'' = Some q"
      "\<forall>p \<in> set pre. discountRate q < discountRate p"
      "\<forall>p \<in> set post. discountRate q \<le> discountRate p"
    by auto
  have q: "q = apple80"
  proof (cases pre)
    case Nil
    with r(1) have "q = all90" "post = [apple80, all80]" by simp_all
    with r(4) show ?thesis by (simp add: all90_def apple80_def)
  next
    case (Cons x xs)
    note pre = Cons
    with r(1) have x: "x = all90" and rest: "apple80 # [all80] = xs @ q # post" by simp_all
    show ?thesis
    proof (cases xs)
      case Nil
      with rest show ?thesis by simp
    next
      case (Cons y ys)
      with rest have "y = apple80" "[all80] = ys @ q # post" by simp_all
      then have "q = all80" by (cases ys) simp_all
      with r(3) pre Cons \<open>y = apple80\<close> show ?thesis by (simp add: all80_def apple80_def)
    qed
  qed
  have e: "filter (isDiscountCandidate 5 ''B'') [apple80, apple50_off] = []"
    by (simp add: isDiscountCandidate_def isValid_def isApplicableToItem_def
        apple80_def apple50_off_def)
  with getActiveDiscountForItem_lowest_rate [OF h', of 5 "''B''"]
  have n: "getActiveDiscountForItem 5 [apple80, apple50_off] ''B'' = None" by blast
  from rates c r(2) q e n show ?thesis by simp
qed

subsection \<open>The pricing computation\<close>

lemma discountLoop_afterDiscountTotal:
  "afterDiscountTotal (discountLoop now ps st b res)
     = afterDiscountTotal res + sum_list (map (lineAfterDiscount now ps st) b)"
  by (induction b arbitrary: res)
     (auto simp: Let_def lineAfterDiscount_def split: option.splits)

lemma discountLoop_totalReduction:
  "totalReduction (discountLoop now ps st b res) = totalReduction res"
  by (induction b arbitrary: res) (auto simp: Let_def split: option.splits)

lemma reductionLoop_afterDiscountTotal:
  "afterDiscountTotal (reductionLoop rs res) = afterDiscountTotal res"
  by (induction rs arbitrary: res) (auto simp: Let_def)

text \<open>
  The second loop compares every threshold with the \<open>afterDiscountTotal\<close> it starts
  with, and adds the amount of a met reduction when that amount is positive.
\<close>

lemma reductionLoop_totalReduction:
  "totalReduction (reductionLoop rs res)
     = totalReduction res
       + sum_list (map reductionAmount
           (filter (\<lambda>p. promotionType p = FULL_REDUCTION
                      \<and> thresholdAmount p \<le> afterDiscountTotal res
                      \<and> 0 < reductionAmount p) rs))"
  by (induction rs arbitrary: res) (auto simp: Let_def calculateReduction_def)

lemma reductionLoop_unchanged:
  "\<forall>r \<in> set rs. calculateReduction r (afterDiscountTotal res) \<le> 0 \<Longrightarrow>
   reductionLoop rs res = res"
  by (induction rs arbitrary: res) (auto simp: Let_def)

lemma sum_list_filter_sort_key:
  "sum_list (map f (filter P (sort_key k xs))) = sum_list (map f (filter P xs))"
  for f :: "'a \<Rightarrow> real"
proof -
  have "mset (map f (filter P (sort_key k xs))) = mset (map f (filter P xs))"
    by simp
  then show ?thesis by (metis sum_mset_sum_list)
qed

lemma sum_list_drop_zero:
  "\<forall>p \<in> set xs. P p \<longrightarrow> 0 \<le> f p \<Longrightarrow>
   sum_list (map f (filter (\<lambda>p. P p \<and> 0 < f p) xs)) = sum_list (map f (filter P xs))"
  for f :: "'a \<Rightarrow> real"
  by (induction xs) auto

text \<open>
  The three totals for every basket and catalog, with no assumption on the amounts:
  a met reduction counts when its amount is positive.
\<close>

lemma calculatePromotionResult_afterDiscountTotal:
  "afterDiscountTotal (calculatePromotionResult now ps st b)
      = sum_list (map (lineAfterDiscount now ps st) b)"
  by (simp add: calculatePromotionResult_def Let_def reductionLoop_afterDiscountTotal
      discountLoop_afterDiscountTotal)

lemma calculatePromotionResult_totalReduction:
  "totalReduction (calculatePromotionResult now ps st b)
      = sum_list (map reductionAmount
           (filter (\<lambda>p. (isActiveFullReduction now p
                        \<and> thresholdAmount p
                            \<le> afterDiscountTotal (calculatePromotionResult now ps st b))
                      \<and> 0 < reductionAmount p) ps))"
proof -
  let ?adt = "sum_list (map (lineAfterDiscount now ps st) b)"
  have "sum_list (map reductionAmount
           (filter (\<lambda>p. promotionType p = FULL_REDUCTION
                      \<and> thresholdAmount p \<le> ?adt \<and> 0 < reductionAmount p)
              (getActiveFullReductions now ps)))
      = sum_list (map reductionAmount
           (filter (\<lambda>p. (isActiveFullReduction now p \<and> thresholdAmount p \<le> ?adt)
                      \<and> 0 < reductionAmount p) ps))"
    unfolding getActiveFullReductions_def sum_list_filter_sort_key
    by (simp add: isActiveFullReduction_def conj_commute conj_left_commute cong: conj_cong)
  then show ?thesis
    unfolding calculatePromotionResult_afterDiscountTotal
    by (simp add: calculatePromotionResult_def Let_def reductionLoop_totalReduction
        discountLoop_afterDiscountTotal discountLoop_totalReduction)
qed

lemma calculatePromotionResult_finalTotal:
  "finalTotal (calculatePromotionResult now ps st b)
      = afterDiscountTotal (calculatePromotionResult now ps st b)
        - totalReduction (calculatePromotionResult now ps st b)"
  by (simp add: calculatePromotionResult_def Let_def)

text \<open>
  Claim C4. For every basket and promotion catalog, the pricing computation tests
  the threshold of each currently valid full reduction against the one fixed
  \<open>afterDiscountTotal\<close>, the sum of the discounted lines, not against a running
  total; every reduction whose threshold is met contributes its full
  \<open>reductionAmount\<close> to \<open>totalReduction\<close>; and \<open>finalTotal\<close> is \<open>afterDiscountTotal\<close>
  minus \<open>totalReduction\<close>. In particular two valid full reductions of thresholds
  300 (reduce 50) and 500 (reduce 100) and an \<open>afterDiscountTotal\<close> of 600 give a
  \<open>totalReduction\<close> of 150.

  The catalog is one of the data model, where a reduction amount is positive (the
  administrator commands reject any other amount); the theorem needs only that no
  full reduction has a negative amount. The source adds the amount of a met
  reduction under the test \<^verbatim>\<open>reductionAmount > 0\<close>, which an amount of the data
  model passes.
\<close>

theorem calculatePromotionResult_stacks_reductions:
  assumes "\<forall>p \<in> set promotions. promotionType p = FULL_REDUCTION \<longrightarrow> 0 \<le> reductionAmount p"
  shows "(let res = calculatePromotionResult now promotions st cartItems
          in afterDiscountTotal res = sum_list (map (lineAfterDiscount now promotions st) cartItems)
             \<and> totalReduction res
                 = sum_list (map reductionAmount
                     (filter (\<lambda>p. isActiveFullReduction now p
                                \<and> thresholdAmount p \<le> afterDiscountTotal res) promotions))
             \<and> finalTotal res = afterDiscountTotal res - totalReduction res
             \<and> (\<forall>r1 r2. filter (isActiveFullReduction now) promotions = [r1, r2]
                    \<and> thresholdAmount r1 = 300 \<and> reductionAmount r1 = 50
                    \<and> thresholdAmount r2 = 500 \<and> reductionAmount r2 = 100
                    \<and> afterDiscountTotal res = 600
                  \<longrightarrow> totalReduction res = 150))"
proof -
  let ?res = "calculatePromotionResult now promotions st cartItems"
  let ?met = "\<lambda>p. isActiveFullReduction now p \<and> thresholdAmount p \<le> afterDiscountTotal ?res"
  have nonneg: "\<forall>p \<in> set promotions. ?met p \<longrightarrow> 0 \<le> reductionAmount p"
    using assms by (simp add: isActiveFullReduction_def)
  have total: "totalReduction ?res = sum_list (map reductionAmount (filter ?met promotions))"
    unfolding calculatePromotionResult_totalReduction [of now promotions st cartItems]
    using nonneg by (rule sum_list_drop_zero)
  have example: "totalReduction ?res = 150"
    if h: "filter (isActiveFullReduction now) promotions = [r1, r2]"
      "thresholdAmount r1 = 300" "reductionAmount r1 = 50"
      "thresholdAmount r2 = 500" "reductionAmount r2 = 100"
      "afterDiscountTotal ?res = 600" for r1 r2
  proof -
    have "filter ?met promotions
        = filter (\<lambda>p. thresholdAmount p \<le> afterDiscountTotal ?res)
            (filter (isActiveFullReduction now) promotions)"
      by (simp add: conj_commute)
    also have "\<dots> = [r1, r2]" using h by simp
    finally show ?thesis using total h by simp
  qed
  show ?thesis
    unfolding Let_def
    using calculatePromotionResult_afterDiscountTotal [of now promotions st cartItems]
      total calculatePromotionResult_finalTotal [of now promotions st cartItems] example
    by blast
qed

text \<open>
  The theorem at the catalog of the two reductions of the claim and a basket of one
  sofa at 600: both reductions are met by the same 600, their amounts add up to
  150, and 450 remain to pay.
\<close>

theorem calculatePromotionResult_stacks_reductions_witness:
  "0 \<le> reductionAmount spend300 \<and> 0 \<le> reductionAmount spend500
   \<and> filter (isActiveFullReduction 5) [spend300, spend500] = [spend300, spend500]
   \<and> thresholdAmount spend300 = 300 \<and> reductionAmount spend300 = 50
   \<and> thresholdAmount spend500 = 500 \<and> reductionAmount spend500 = 100
   \<and> afterDiscountTotal (calculatePromotionResult 5 [spend300, spend500] example_store [(2, 1)]) = 600
   \<and> totalReduction (calculatePromotionResult 5 [spend300, spend500] example_store [(2, 1)]) = 150
   \<and> finalTotal (calculatePromotionResult 5 [spend300, spend500] example_store [(2, 1)]) = 450"
proof -
  let ?res = "calculatePromotionResult 5 [spend300, spend500] example_store [(2, 1)]"
  have nonneg: "0 \<le> reductionAmount spend300" "0 \<le> reductionAmount spend500"
    by (simp_all add: spend300_def spend500_def)
  then have h: "\<forall>p \<in> set [spend300, spend500].
                  promotionType p = FULL_REDUCTION \<longrightarrow> 0 \<le> reductionAmount p"
    by simp
  have act: "filter (isActiveFullReduction 5) [spend300, spend500] = [spend300, spend500]"
    by (simp add: isActiveFullReduction_def isValid_def spend300_def spend500_def)
  have amounts: "thresholdAmount spend300 = 300" "reductionAmount spend300 = 50"
      "thresholdAmount spend500 = 500" "reductionAmount spend500 = 100"
    by (simp_all add: spend300_def spend500_def)
  have line: "lineAfterDiscount 5 [spend300, spend500] example_store (2, 1) = 600"
    by (simp add: lineAfterDiscount_def getActiveDiscountForItem_def example_store_def
        sofa_def spend300_def spend500_def)
  note inst = calculatePromotionResult_stacks_reductions
    [OF h, of 5 example_store "[(2, 1)]", unfolded Let_def]
  from inst line have adt: "afterDiscountTotal ?res = 600" by simp
  from inst have "filter (isActiveFullReduction 5) [spend300, spend500] = [spend300, spend500]
              \<and> thresholdAmount spend300 = 300 \<and> reductionAmount spend300 = 50
              \<and> thresholdAmount spend500 = 500 \<and> reductionAmount spend500 = 100
              \<and> afterDiscountTotal ?res = 600
            \<longrightarrow> totalReduction ?res = 150"
    by blast
  with act amounts adt have red: "totalReduction ?res = 150" by blast
  from inst have "finalTotal ?res = afterDiscountTotal ?res - totalReduction ?res" by blast
  with adt red have "finalTotal ?res = 450" by simp
  with nonneg act amounts adt red show ?thesis by simp
qed

text \<open>
  Claim C9. For an empty basket the pricing computation returns a result whose
  \<open>originalTotal\<close>, \<open>afterDiscountTotal\<close>, \<open>finalTotal\<close>, \<open>totalSavings\<close> and
  \<open>totalReduction\<close> are zero and whose \<open>itemDiscounts\<close> and \<open>appliedPromotions\<close> are
  empty, also when the catalog holds valid full reductions, their thresholds being
  positive. The computation has no failing branch: the model is a total function
  that returns a result and nothing else.
\<close>

theorem calculatePromotionResult_empty_basket:
  assumes "\<forall>p \<in> set promotions. isActiveFullReduction now p \<longrightarrow> 0 < thresholdAmount p"
  shows "calculatePromotionResult now promotions st []
           = \<lparr>originalTotal = 0, afterDiscountTotal = 0, finalTotal = 0, totalSavings = 0,
              appliedPromotions = [], itemDiscounts = [], totalReduction = 0\<rparr>"
proof -
  let ?zero = "\<lparr>originalTotal = 0, afterDiscountTotal = 0, finalTotal = 0, totalSavings = 0,
                 appliedPromotions = [], itemDiscounts = [], totalReduction = 0\<rparr>"
  have "\<forall>r \<in> set (getActiveFullReductions now promotions).
          calculateReduction r (afterDiscountTotal ?zero) \<le> 0"
    using assms
    by (auto simp: getActiveFullReductions_def isActiveFullReduction_def calculateReduction_def)
  then have "reductionLoop (getActiveFullReductions now promotions) ?zero = ?zero"
    by (rule reductionLoop_unchanged)
  then show ?thesis by (simp add: calculatePromotionResult_def)
qed

text \<open>The theorem at the catalog of the two valid reductions of thresholds 300 and 500.\<close>

theorem calculatePromotionResult_empty_basket_witness:
  "isActiveFullReduction 5 spend300 \<and> 0 < thresholdAmount spend300
   \<and> isActiveFullReduction 5 spend500 \<and> 0 < thresholdAmount spend500
   \<and> calculatePromotionResult 5 [spend300, spend500] example_store []
       = \<lparr>originalTotal = 0, afterDiscountTotal = 0, finalTotal = 0, totalSavings = 0,
          appliedPromotions = [], itemDiscounts = [], totalReduction = 0\<rparr>"
proof -
  have a: "isActiveFullReduction 5 spend300" "0 < thresholdAmount spend300"
      "isActiveFullReduction 5 spend500" "0 < thresholdAmount spend500"
    by (simp_all add: isActiveFullReduction_def isValid_def spend300_def spend500_def)
  then have h: "\<forall>p \<in> set [spend300, spend500]. isActiveFullReduction 5 p \<longrightarrow> 0 < thresholdAmount p"
    by simp
  from a calculatePromotionResult_empty_basket [OF h, of example_store] show ?thesis by simp
qed

subsection \<open>Generating a promotion id\<close>

lemma maxNumLoop_fold:
  "maxNumLoop ps m = fold max (scannedNumbers ps) m"
proof (induction ps arbitrary: m)
  case Nil
  then show ?case by (simp add: scannedNumbers_def)
next
  case (Cons p ps)
  show ?case
  proof (cases "scannedNumber (promotionId p)")
    case None
    then have "maxNumLoop (p # ps) m = maxNumLoop ps m"
      by (auto simp: scannedNumber_def Let_def split: sum.splits if_splits)
    moreover have "scannedNumbers (p # ps) = scannedNumbers ps"
      using None by (simp add: scannedNumbers_def)
    ultimately show ?thesis using Cons.IH by simp
  next
    case (Some n)
    then have l: "maxNumLoop (p # ps) m = maxNumLoop ps (max n m)"
      by (auto simp: scannedNumber_def Let_def max_def split: sum.splits if_splits)
    have s: "scannedNumbers (p # ps) = n # scannedNumbers ps"
      using Some by (simp add: scannedNumbers_def)
    show ?thesis using l s Cons.IH [of "max n m"] by simp
  qed
qed

lemma maxNumLoop_Max:
  "maxNumLoop ps m = Max (set (m # scannedNumbers ps))"
  by (simp only: maxNumLoop_fold Max.set_eq_fold)

lemma maxNumLoop_ge: "m \<le> maxNumLoop ps m"
  unfolding maxNumLoop_Max by (rule Max_ge) auto

lemma isdigit_not_space: "isdigit c \<Longrightarrow> \<not> isspace c \<and> c \<noteq> CHR ''-'' \<and> c \<noteq> CHR ''+''"
  by (auto simp: isdigit_def isspace_def)

lemma strto_int_all_digits:
  assumes "ds \<noteq> []" "\<forall>c \<in> set ds. isdigit c"
  shows "strto_int ds = Some (int (digits_value ds))"
proof -
  obtain c r where ds: "ds = c # r" using assms(1) by (cases ds) auto
  have c: "isdigit c" using assms(2) ds by simp
  have dw: "dropWhile isspace ds = ds" using ds c isdigit_not_space by simp
  have tw: "takeWhile isdigit ds = ds" using assms(2) by simp
  have neg: "(case ds of [] \<Rightarrow> False | x # y \<Rightarrow> x = CHR ''-'') = False"
    using ds c isdigit_not_space [of c] by simp
  have s2: "(case ds of [] \<Rightarrow> [] | x # y \<Rightarrow> if x = CHR ''-'' \<or> x = CHR ''+'' then y else ds) = ds"
    using ds c isdigit_not_space [of c] by simp
  show ?thesis
    unfolding strto_int_def Let_def dw neg s2 tw using assms(1) by simp
qed

lemma scannedNumber_digits:
  assumes "3 \<le> length ds" "\<forall>c \<in> set ds. isdigit c" "int (digits_value ds) \<le> INT_MAX"
  shows "scannedNumber (''PROMO'' @ ds) = Some (int (digits_value ds))"
proof -
  have "ds \<noteq> []" using assms(1) by auto
  then have "strto_int ds = Some (int (digits_value ds))"
    using assms(2) by (rule strto_int_all_digits)
  then show ?thesis using assms(1,3)
    by (simp add: scannedNumber_def stoi_def INT_MIN_def)
qed

lemma scannedNumber_short: "length ds < 3 \<Longrightarrow> scannedNumber (''PROMO'' @ ds) = None"
  by (simp add: scannedNumber_def)

lemma setw_fill0_3: "setw_fill0 3 ''1'' = ''001''" "setw_fill0 3 ''42'' = ''042''"
  by (simp_all add: setw_fill0_def numeral_2_eq_2)

lemma put_nat_examples:
  "put_nat 1 = ''1''" "put_nat (Suc 0) = ''1''" "put_nat 6 = ''6''" "put_nat 42 = ''42''"
  "put_int 100 = ''100''" "put_nat 124 = ''124''"
  by (simp_all add: put_int_def put_nat.simps digit_char_def)

text \<open>
  Claim C8 says that \<open>generatePromotionId\<close> scans all ids that are PROMO followed
  by digits, the digit suffix being of any length, and returns PROMO followed by
  one plus the largest suffix, padded with zeros to three digits, and PROMO001 when
  no id has that form. The source reads an id when it has at least eight characters,
  begins with PROMO and \<^verbatim>\<open>std::stoi\<close> accepts what follows:
  \<^item> with the single id PROMO12 in the catalog the next id is PROMO001, not PROMO013;
  \<^item> with the single id PROMO123x, which is not PROMO followed by digits, the next
    id is PROMO124, not PROMO001;
  \<^item> with the single id PROMO99999999999, whose suffix does not fit an \<^verbatim>\<open>int\<close>, the
    next id is PROMO001, not PROMO100000000000;
  \<^item> with the single id PROMO2147483647 the sum \<open>maxNum + 1\<close> overflows, and no next
    id is defined.
\<close>

theorem generatePromotionId_two_digit_counterexample:
  "promotionId promo12 = ''PROMO'' @ ''12''
   \<and> isdigit (CHR ''1'') \<and> isdigit (CHR ''2'') \<and> digits_value ''12'' = 12
   \<and> generatePromotionId [promo12] = Some ''PROMO001''
   \<and> generatePromotionId [promo12] \<noteq> Some ''PROMO013''
   \<and> promotionId promo123x = ''PROMO123x'' \<and> \<not> isdigit (CHR ''x'')
   \<and> generatePromotionId [promo123x] = Some ''PROMO124''
   \<and> promotionId promo_eleven_digits = ''PROMO'' @ ''99999999999''
   \<and> digits_value ''99999999999'' = 99999999999
   \<and> generatePromotionId [promo_eleven_digits] = Some ''PROMO001''
   \<and> promotionId promo_int_max = ''PROMO'' @ ''2147483647''
   \<and> digits_value ''2147483647'' = 2147483647
   \<and> generatePromotionId [promo_int_max] = None"
proof -
  have a: "generatePromotionId [promo12] = Some ''PROMO001''"
    by (simp add: generatePromotionId_def promo12_def INT_MAX_def put_int_def
        put_nat_examples setw_fill0_3)
  have b: "generatePromotionId [promo123x] = Some ''PROMO124''"
    by (simp add: generatePromotionId_def promo123x_def stoi_def strto_int_def isspace_def
        isdigit_def digits_value_def digit_value_def INT_MAX_def INT_MIN_def put_int_def
        put_nat_examples setw_fill0_def)
  have c: "generatePromotionId [promo_eleven_digits] = Some ''PROMO001''"
    by (simp add: generatePromotionId_def promo_eleven_digits_def stoi_def strto_int_def
        isspace_def isdigit_def digits_value_def digit_value_def INT_MAX_def INT_MIN_def
        put_int_def put_nat_examples setw_fill0_3)
  have d: "generatePromotionId [promo_int_max] = None"
    by (simp add: generatePromotionId_def promo_int_max_def stoi_def strto_int_def
        isspace_def isdigit_def digits_value_def digit_value_def INT_MAX_def INT_MIN_def)
  have e: "isdigit (CHR ''1'')" "isdigit (CHR ''2'')" "\<not> isdigit (CHR ''x'')"
      "digits_value ''12'' = 12" "digits_value ''99999999999'' = 99999999999"
      "digits_value ''2147483647'' = 2147483647"
    by (simp_all add: isdigit_def digits_value_def digit_value_def)
  from a b c d e show ?thesis
    by (simp add: promo12_def promo123x_def promo_eleven_digits_def promo_int_max_def)
qed

text \<open>
  Claim C8 as amended. For every catalog, \<open>generatePromotionId\<close> scans the ids
  that have at least eight characters, begin with PROMO and go on with text that
  \<^verbatim>\<open>std::stoi\<close> reads as an \<^verbatim>\<open>int\<close>, and returns PROMO followed by one plus the
  largest of zero and the numbers scanned, padded with zeros to at least three
  digits; when no id is scanned it returns PROMO001; when that largest number is
  \<open>INT_MAX\<close> the sum overflows and no result is defined. PROMO followed by three or
  more digits whose value fits an \<^verbatim>\<open>int\<close> is scanned with that value; PROMO followed
  by fewer than three characters is not scanned.
\<close>

theorem generatePromotionId_scanned:
  "generatePromotionId promotions =
     (if Max (set (0 # scannedNumbers promotions)) = INT_MAX then None
      else Some (''PROMO'' @
             setw_fill0 3 (put_nat (nat (Max (set (0 # scannedNumbers promotions)) + 1)))))
   \<and> (scannedNumbers promotions = [] \<longrightarrow> generatePromotionId promotions = Some ''PROMO001'')
   \<and> (\<forall>ds. 3 \<le> length ds \<and> (\<forall>c \<in> set ds. isdigit c) \<and> int (digits_value ds) \<le> INT_MAX
          \<longrightarrow> scannedNumber (''PROMO'' @ ds) = Some (int (digits_value ds)))
   \<and> (\<forall>ds. length ds < 3 \<longrightarrow> scannedNumber (''PROMO'' @ ds) = None)"
proof -
  have "0 \<le> maxNumLoop promotions 0" by (rule maxNumLoop_ge)
  then have "put_int (maxNumLoop promotions 0 + 1) = put_nat (nat (maxNumLoop promotions 0 + 1))"
    by (simp add: put_int_def)
  then have main: "generatePromotionId promotions =
     (if Max (set (0 # scannedNumbers promotions)) = INT_MAX then None
      else Some (''PROMO'' @
             setw_fill0 3 (put_nat (nat (Max (set (0 # scannedNumbers promotions)) + 1)))))"
    by (simp add: generatePromotionId_def Let_def maxNumLoop_Max del: set_simps)
  have none: "generatePromotionId promotions = Some ''PROMO001''"
    if "scannedNumbers promotions = []"
    unfolding main using that by (simp add: INT_MAX_def put_nat_examples setw_fill0_3)
  show ?thesis
    using main none scannedNumber_digits scannedNumber_short by blast
qed

text \<open>
  The theorem at the catalog of PROMO041 and PROMO12: only 41 is scanned, and the
  next id is PROMO042.
\<close>

theorem generatePromotionId_scanned_witness:
  "scannedNumbers [promo041, promo12] = [41]
   \<and> generatePromotionId [promo041, promo12] = Some ''PROMO042''
   \<and> scannedNumbers [] = [] \<and> generatePromotionId [] = Some ''PROMO001''
   \<and> scannedNumber (''PROMO'' @ ''041'') = Some 41
   \<and> scannedNumber (''PROMO'' @ ''12'') = None"
proof -
  have s: "scannedNumbers [promo041, promo12] = [41]"
    by (simp add: scannedNumbers_def scannedNumber_def promo041_def promo12_def stoi_def
        strto_int_def isspace_def isdigit_def digits_value_def digit_value_def
        INT_MAX_def INT_MIN_def)
  have e: "scannedNumbers [] = []" by (simp add: scannedNumbers_def)
  from generatePromotionId_scanned [of "[promo041, promo12]"] s
  have g: "generatePromotionId [promo041, promo12] = Some ''PROMO042''"
    by (simp add: INT_MAX_def put_nat_examples setw_fill0_3)
  from generatePromotionId_scanned [of "[]"] e
  have n: "generatePromotionId [] = Some ''PROMO001''" by blast
  have d: "3 \<le> length ''041''" "\<forall>c \<in> set ''041''. isdigit c"
      "int (digits_value ''041'') \<le> INT_MAX" "int (digits_value ''041'') = 41"
    by (simp_all add: isdigit_def digits_value_def digit_value_def INT_MAX_def)
  from generatePromotionId_scanned [of "[]"]
  have "3 \<le> length ''041'' \<and> (\<forall>c \<in> set ''041''. isdigit c)
          \<and> int (digits_value ''041'') \<le> INT_MAX
        \<longrightarrow> scannedNumber (''PROMO'' @ ''041'') = Some (int (digits_value ''041''))"
    by blast
  with d have l: "scannedNumber (''PROMO'' @ ''041'') = Some 41" by simp
  from generatePromotionId_scanned [of "[]"]
  have "length ''12'' < 3 \<longrightarrow> scannedNumber (''PROMO'' @ ''12'') = None" by blast
  then have k: "scannedNumber (''PROMO'' @ ''12'') = None" by simp
  from s g e n l k show ?thesis by simp
qed

section \<open>Orders\<close>

subsection \<open>Constructing an order\<close>

lemma cartLoop_isl:
  "isl (fst (cartLoop b st its tot)) = (\<not> stockSuffices st b)"
proof (induction b arbitrary: st its tot)
  case Nil
  then show ?case by simp
next
  case (Cons a b)
  obtain r q where a: "a = (r, q)" by (cases a)
  show ?case
  proof (cases "q > stock (st r)")
    case True
    then show ?thesis using a by (simp add: Let_def)
  next
    case False
    then show ?thesis using a Cons.IH by (simp add: Let_def fun_upd_def)
  qed
qed

lemma Order_new_isl:
  "isl (fst (Order_new pf now uid b address m st)) = (\<not> stockSuffices st b)"
  using cartLoop_isl [of b st "[]" 0]
  by (auto simp: Order_new_def split: prod.splits sum.splits)

lemma stockSuffices_cong:
  "(\<forall>r \<in> fst ` set b. st r = st' r) \<Longrightarrow> stockSuffices st b = stockSuffices st' b"
proof (induction b arbitrary: st st')
  case Nil
  then show ?case by simp
next
  case (Cons a b)
  obtain r q where a: "a = (r, q)" by (cases a)
  have "stockSuffices (st(r := (st r)\<lparr>stock := stock (st r) - q\<rparr>)) b
      = stockSuffices (st'(r := (st' r)\<lparr>stock := stock (st' r) - q\<rparr>)) b"
    by (rule Cons.IH) (use Cons.prems a in auto)
  then show ?case using Cons.prems a by simp
qed

text \<open>When no item occurs twice, each line is checked against the stock at the start.\<close>

lemma stockSuffices_distinct:
  "distinct (map fst b) \<Longrightarrow> stockSuffices st b = (\<forall>(r, q) \<in> set b. q \<le> stock (st r))"
proof (induction b arbitrary: st)
  case Nil
  then show ?case by simp
next
  case (Cons a b)
  obtain r q where a: "a = (r, q)" by (cases a)
  from Cons.prems a have nin: "r \<notin> fst ` set b" and d: "distinct (map fst b)" by auto
  have "stockSuffices (st(r := (st r)\<lparr>stock := stock (st r) - q\<rparr>)) b = stockSuffices st b"
    by (rule stockSuffices_cong) (use nin in auto)
  with Cons.IH [OF d, of st] a show ?case by simp
qed

lemma generateOrderId_example:
  "generateOrderId pf_example ''u1'' 100 = ''ORD0000000000000006''"
proof -
  have "setw_fill0 16 ''6'' = ''0000000000000006''"
    by (simp add: setw_fill0_def eval_nat_numeral)
  then show ?thesis
    by (simp add: generateOrderId_def pf_example_def put_nat_examples)
qed

lemma Order_new_example:
  "Order_new pf_example 100 ''u1'' [(0, 2)] ''addr'' None example_store
     = (Inr example_order, example_store(0 := apple\<lparr>stock := 3\<rparr>), None)"
  by (simp add: Order_new_def generateOrderId_example example_order_def example_store_def
      apple_def)

text \<open>
  Claim C1. A basket in which some line asks for more than the stock of its item
  makes the construction fail with \<open>InsufficientStockException\<close> and leaves the
  stock of every item of the basket as it was.

  The constructor commits each line before it checks the next one and restores
  nothing when it throws. For three apples (stock 5) followed by two pears (stock 1)
  the exception is thrown at the pears, and the apples have lost three pieces of
  stock to an order that does not exist.
\<close>

theorem Order_new_keeps_earlier_decrement:
  "fst (Order_new pf_example 100 ''u1'' [(0, 3), (1, 2)] ''addr'' None example_store)
       = Inl (InsufficientStockException ''pear'' 2 1)
   \<and> stock (example_store 0) = 5
   \<and> stock (fst (snd (Order_new pf_example 100 ''u1'' [(0, 3), (1, 2)] ''addr'' None
                         example_store)) 0) = 2"
  by (simp add: Order_new_def example_store_def apple_def pear_def)

subsection \<open>Creating an order through the manager\<close>

text \<open>
  Claim C2 says that \<open>createOrder\<close> passes the \<open>InsufficientStockException\<close> on to
  its caller. The source catches it: for the basket of three apples and two pears
  the call returns the null pointer.
\<close>

theorem createOrder_returns_null_counterexample:
  "fst (Order_new pf_example 100 ''u1'' [(0, 3), (1, 2)] ''addr''
          (itemManager example_manager) example_store)
       = Inl (InsufficientStockException ''pear'' 2 1)
   \<and> fst (createOrder pf_example 100 ''u1'' [(0, 3), (1, 2)] ''addr'' example_manager
            example_store) = Inr None
   \<and> fst (createOrder pf_example 100 ''u1'' [(0, 3), (1, 2)] ''addr'' example_manager
            example_store) \<noteq> Inl (InsufficientStockException ''pear'' 2 1)"
  by (simp add: createOrder_def Order_new_def example_store_def apple_def pear_def
      example_manager_def)

text \<open>
  Claim C2 as amended. For every call of \<open>createOrder\<close> with a basket in which a
  line asks for more than the stock its item has left when the line is reached, the
  call catches the \<open>InsufficientStockException\<close>, returns the null pointer and
  leaves the manager (collection and file) as it was; and for every basket in which
  every line is within that stock it returns the newly constructed order, which it
  has appended to the collection. When no item occurs twice in the basket, the
  stock a line is checked against is the stock before the call.
\<close>

theorem createOrder_null_or_order:
  "(\<not> stockSuffices st cartItems \<longrightarrow>
      fst (createOrder pf now uid cartItems address om st) = Inr None
      \<and> fst (snd (createOrder pf now uid cartItems address om st)) = om)
   \<and> (stockSuffices st cartItems \<longrightarrow>
        (\<exists>ord. fst (Order_new pf now uid cartItems address (itemManager om) st) = Inr ord
           \<and> fst (createOrder pf now uid cartItems address om st) = Inr (Some ord)
           \<and> orders (fst (snd (createOrder pf now uid cartItems address om st)))
               = orders om @ [ord]))
   \<and> (distinct (map fst cartItems) \<longrightarrow>
        stockSuffices st cartItems = (\<forall>(r, q) \<in> set cartItems. q \<le> stock (st r)))"
proof -
  obtain res st' m where new: "Order_new pf now uid cartItems address (itemManager om) st
      = (res, st', m)"
    by (cases "Order_new pf now uid cartItems address (itemManager om) st") auto
  have isl: "isl res = (\<not> stockSuffices st cartItems)"
    using Order_new_isl [of pf now uid cartItems address "itemManager om" st] new by simp
  have fails: "fst (createOrder pf now uid cartItems address om st) = Inr None
      \<and> fst (snd (createOrder pf now uid cartItems address om st)) = om"
    if "\<not> stockSuffices st cartItems"
  proof -
    from that isl obtain e where "res = Inl e" by (cases res) auto
    with new show ?thesis by (simp add: createOrder_def)
  qed
  have succeeds: "\<exists>ord. fst (Order_new pf now uid cartItems address (itemManager om) st) = Inr ord
           \<and> fst (createOrder pf now uid cartItems address om st) = Inr (Some ord)
           \<and> orders (fst (snd (createOrder pf now uid cartItems address om st)))
               = orders om @ [ord]"
    if "stockSuffices st cartItems"
  proof -
    from that isl obtain ord where "res = Inr ord" by (cases res) auto
    with new show ?thesis
      by (simp add: createOrder_def Let_def saveToFile_def)
  qed
  show ?thesis using fails succeeds stockSuffices_distinct [of cartItems st] by blast
qed

text \<open>
  The theorem at the order of two apples: the stock of five suffices, and the call
  returns the new order as the only member of the collection. And at the basket of
  three apples and two pears: the call returns the null pointer and the manager is
  as before.
\<close>

theorem createOrder_null_or_order_witness:
  "stockSuffices example_store [(0, 2)]
   \<and> distinct (map fst [(0 :: nat, 2 :: int)])
   \<and> fst (createOrder pf_example 100 ''u1'' [(0, 2)] ''addr'' example_manager example_store)
       = Inr (Some example_order)
   \<and> orders (fst (snd (createOrder pf_example 100 ''u1'' [(0, 2)] ''addr'' example_manager
                          example_store))) = [example_order]
   \<and> \<not> stockSuffices example_store [(0, 3), (1, 2)]
   \<and> fst (createOrder pf_example 100 ''u1'' [(0, 3), (1, 2)] ''addr'' example_manager
            example_store) = Inr None
   \<and> fst (snd (createOrder pf_example 100 ''u1'' [(0, 3), (1, 2)] ''addr'' example_manager
                 example_store)) = example_manager"
proof -
  have s: "stockSuffices example_store [(0, 2)]"
    by (simp add: example_store_def apple_def)
  have new: "fst (Order_new pf_example 100 ''u1'' [(0, 2)] ''addr''
                (itemManager example_manager) example_store) = Inr example_order"
    by (simp add: Order_new_example example_manager_def)
  from createOrder_null_or_order
    [of example_store "[(0, 2)]" pf_example 100 "''u1''" "''addr''" example_manager] s new
  have ok: "fst (createOrder pf_example 100 ''u1'' [(0, 2)] ''addr'' example_manager example_store)
       = Inr (Some example_order)
     \<and> orders (fst (snd (createOrder pf_example 100 ''u1'' [(0, 2)] ''addr'' example_manager
                          example_store))) = orders example_manager @ [example_order]"
    by auto
  have f: "\<not> stockSuffices example_store [(0, 3), (1, 2)]"
    by (simp add: example_store_def apple_def pear_def)
  with createOrder_null_or_order
    [of example_store "[(0, 3), (1, 2)]" pf_example 100 "''u1''" "''addr''" example_manager]
  have no: "fst (createOrder pf_example 100 ''u1'' [(0, 3), (1, 2)] ''addr'' example_manager
            example_store) = Inr None
     \<and> fst (snd (createOrder pf_example 100 ''u1'' [(0, 3), (1, 2)] ''addr'' example_manager
                 example_store)) = example_manager"
    by blast
  from ok no s f show ?thesis by (simp add: example_manager_def)
qed

subsection \<open>The time of the last status change\<close>

lemma map_statusChangeTime_orderStates:
  "map statusChangeTime (orderStates ord calls) = statusChangeTime ord # map fst calls"
  by (induction calls arbitrary: ord) (auto simp: setStatus_def)

lemma length_orderStates: "length (orderStates ord calls) = Suc (length calls)"
  by (induction calls arbitrary: ord) auto

text \<open>
  Claim C7 says that \<open>statusChangeTime\<close> never decreases over the life of an order.
  \<^verbatim>\<open>Order::setStatus\<close> stores the reading of \<^verbatim>\<open>std::time\<close> without comparing it with
  the time it replaces, and the system clock can be set back: the order of two
  apples created at the reading 100 and shipped at the reading 50 has the status
  change times 100 and then 50.
\<close>

theorem statusChangeTime_decreases_counterexample:
  "fst (Order_new pf_example 100 ''u1'' [(0, 2)] ''addr'' None example_store) = Inr example_order
   \<and> statusChangeTime example_order = 100
   \<and> statusChangeTime (setStatus 50 SHIPPED example_order) = 50
   \<and> map statusChangeTime (orderStates example_order [(50, SHIPPED)]) = [100, 50]
   \<and> \<not> sorted (map statusChangeTime (orderStates example_order [(50, SHIPPED)]))"
  by (simp add: Order_new_example setStatus_def example_order_def)

text \<open>
  Claim C7 as amended. For every order, \<open>statusChangeTime\<close> is always the clock
  reading taken at the latest status transition of the order: creation counts as
  the transition into Pending, so that a new order has
  \<open>statusChangeTime = orderTime\<close>, and every \<open>setStatus\<close> call sets it to the clock
  reading of the call. Over the life of the order it is non-decreasing exactly when
  the successive clock readings are.

  The order \<open>x\<close> is any order, however it was constructed, and \<open>calls\<close> are the
  \<open>setStatus\<close> calls it then receives, whoever makes them: its status change times
  are its first one followed by the readings of the calls, in this order.
\<close>

theorem statusChangeTime_follows_clock:
  "(fst (Order_new pf t0 uid cartItems address m st) = Inr ord
      \<longrightarrow> status ord = PENDING \<and> orderTime ord = t0 \<and> statusChangeTime ord = orderTime ord)
   \<and> statusChangeTime (setStatus t s x) = t \<and> status (setStatus t s x) = s
   \<and> map statusChangeTime (orderStates x calls) = statusChangeTime x # map fst calls
   \<and> (\<forall>k < length calls. statusChangeTime (orderStates x calls ! Suc k) = fst (calls ! k))
   \<and> statusChangeTime (last (orderStates x calls)) = last (statusChangeTime x # map fst calls)
   \<and> sorted (map statusChangeTime (orderStates x calls))
       = sorted (statusChangeTime x # map fst calls)"
proof -
  have o: "status ord = PENDING \<and> orderTime ord = t0 \<and> statusChangeTime ord = orderTime ord"
    if "fst (Order_new pf t0 uid cartItems address m st) = Inr ord"
    using that by (auto simp: Order_new_def split: prod.splits sum.splits)
  have m: "map statusChangeTime (orderStates x calls) = statusChangeTime x # map fst calls"
    by (rule map_statusChangeTime_orderStates)
  have k: "\<forall>k < length calls. statusChangeTime (orderStates x calls ! Suc k) = fst (calls ! k)"
  proof (intro allI impI)
    fix k assume k: "k < length calls"
    then have "Suc k < length (orderStates x calls)" by (simp add: length_orderStates)
    then have "statusChangeTime (orderStates x calls ! Suc k)
             = map statusChangeTime (orderStates x calls) ! Suc k" by simp
    also have "\<dots> = fst (calls ! k)" using m k by simp
    finally show "statusChangeTime (orderStates x calls ! Suc k) = fst (calls ! k)" .
  qed
  have ne: "orderStates x calls \<noteq> []" by (cases calls) auto
  have "statusChangeTime (last (orderStates x calls))
      = last (map statusChangeTime (orderStates x calls))"
    using ne by (simp add: last_map)
  then have l: "statusChangeTime (last (orderStates x calls))
      = last (statusChangeTime x # map fst calls)"
    using m by simp
  have s: "sorted (map statusChangeTime (orderStates x calls))
       = sorted (statusChangeTime x # map fst calls)"
    using m by simp
  have u: "statusChangeTime (setStatus t s x) = t" "status (setStatus t s x) = s"
    by (simp_all add: setStatus_def)
  from o m k l s u show ?thesis by blast
qed

text \<open>
  The theorem at the order of two apples created at 100, shipped at 110 and
  delivered at 130: the readings go forward and so do the status change times. And
  at the order read back from the file with the status change time 100 and shipped
  at 50.
\<close>

theorem statusChangeTime_follows_clock_witness:
  "fst (Order_new pf_example 100 ''u1'' [(0, 2)] ''addr'' None example_store) = Inr example_order
   \<and> status example_order = PENDING \<and> orderTime example_order = 100
   \<and> statusChangeTime example_order = orderTime example_order
   \<and> map statusChangeTime (orderStates example_order [(110, SHIPPED), (130, DELIVERED)])
       = [100, 110, 130]
   \<and> statusChangeTime (orderStates example_order [(110, SHIPPED), (130, DELIVERED)] ! Suc 1) = 130
   \<and> statusChangeTime (last (orderStates example_order [(110, SHIPPED), (130, DELIVERED)])) = 130
   \<and> sorted (map statusChangeTime (orderStates example_order [(110, SHIPPED), (130, DELIVERED)]))
   \<and> map statusChangeTime (orderStates loaded_order [(50, SHIPPED)]) = [100, 50]"
proof -
  have new: "fst (Order_new pf_example 100 ''u1'' [(0, 2)] ''addr'' None example_store)
               = Inr example_order"
    by (simp add: Order_new_example)
  note inst = statusChangeTime_follows_clock
    [of pf_example 100 "''u1''" "[(0, 2)]" "''addr''" None example_store example_order
        110 SHIPPED example_order "[(110, SHIPPED), (130, DELIVERED)]"]
  from inst new have a: "status example_order = PENDING" "orderTime example_order = 100"
      "statusChangeTime example_order = orderTime example_order"
    by blast+
  from inst a have b: "map statusChangeTime
        (orderStates example_order [(110, SHIPPED), (130, DELIVERED)]) = [100, 110, 130]"
    by simp
  from inst have "\<forall>k < length [(110 :: int, SHIPPED), (130, DELIVERED)].
      statusChangeTime (orderStates example_order [(110, SHIPPED), (130, DELIVERED)] ! Suc k)
        = fst ([(110 :: int, SHIPPED), (130, DELIVERED)] ! k)"
    by blast
  then have c: "statusChangeTime
        (orderStates example_order [(110, SHIPPED), (130, DELIVERED)] ! Suc 1) = 130"
    by (elim allE [of _ 1]) simp
  from inst a have d: "statusChangeTime
        (last (orderStates example_order [(110, SHIPPED), (130, DELIVERED)])) = 130"
    by simp
  from inst a have e: "sorted (map statusChangeTime
        (orderStates example_order [(110, SHIPPED), (130, DELIVERED)]))"
    by simp
  from statusChangeTime_follows_clock
    [of pf_example 100 "''u1''" "[(0, 2)]" "''addr''" None example_store example_order
        50 SHIPPED loaded_order "[(50, SHIPPED)]"]
  have f: "map statusChangeTime (orderStates loaded_order [(50, SHIPPED)]) = [100, 50]"
    by (simp add: loaded_order_def)
  from new a b c d e f show ?thesis by simp
qed

subsection \<open>The scheduler's scan\<close>

text \<open>
  The subtraction of the scan gives the elapsed time when that fits a \<^verbatim>\<open>time_t\<close>.
\<close>

lemma time_t_diff_exact:
  assumes "LLONG_MIN \<le> a - b" "a - b \<le> LLONG_MAX"
  shows "time_t_diff a b = a - b"
proof -
  have "0 \<le> a - b + 2 ^ 63" "a - b + 2 ^ 63 < 2 ^ 64"
    using assms by (simp_all add: LLONG_MIN_def LLONG_MAX_def)
  then have "(a - b + 2 ^ 63) mod 2 ^ 64 = a - b + 2 ^ 63"
    by (rule mod_pos_pos_trivial)
  then show ?thesis by (simp add: time_t_diff_def)
qed

lemma dueToShip_elapsed:
  "elapsedFits ct ord \<Longrightarrow>
   dueToShip ct p2s ord = (status ord = PENDING \<and> p2s \<le> elapsed ct ord)"
  by (simp add: dueToShip_def elapsedFits_def elapsed_def time_t_diff_exact)

lemma dueToDeliver_elapsed:
  "elapsedFits ct ord \<Longrightarrow>
   dueToDeliver ct s2d ord = (status ord = SHIPPED \<and> s2d \<le> elapsed ct ord)"
  by (simp add: dueToDeliver_def elapsedFits_def elapsed_def time_t_diff_exact)

lemma scanLoop_length:
  "length (fst (scanLoop clk ct p2s s2d i os ns)) = length os"
  by (induction os arbitrary: i ns) (simp_all add: Let_def split_beta)

lemma scanLoop_nth:
  "k < length os \<Longrightarrow>
   fst (scanLoop clk ct p2s s2d i os ns) ! k
     = (if dueToShip ct p2s (os ! k) then setStatus (clk (i + k)) SHIPPED (os ! k)
        else if dueToDeliver ct s2d (os ! k) then setStatus (clk (i + k)) DELIVERED (os ! k)
        else os ! k)"
proof (induction os arbitrary: i ns k)
  case Nil
  then show ?case by simp
next
  case (Cons a os)
  show ?case
  proof (cases k)
    case 0
    then show ?thesis
      by (simp add: Let_def split_beta dueToShip_def dueToDeliver_def)
  next
    case (Suc j)
    with Cons.prems have j: "j < length os" by simp
    have "fst (scanLoop clk ct p2s s2d i (a # os) ns) ! Suc j
        = fst (scanLoop clk ct p2s s2d (Suc i) os
                 (if dueToShip ct p2s a \<or> dueToDeliver ct s2d a then True else ns)) ! j"
      by (simp add: Let_def split_beta dueToShip_def dueToDeliver_def)
    then show ?thesis using Cons.IH [OF j] Suc by simp
  qed
qed

lemma scanLoop_needSave:
  "snd (scanLoop clk ct p2s s2d i os ns)
     = (ns \<or> (\<exists>ord \<in> set os. dueToShip ct p2s ord \<or> dueToDeliver ct s2d ord))"
  by (induction os arbitrary: i ns)
     (auto simp: Let_def split_beta dueToShip_def dueToDeliver_def)

lemma autoUpdateScan_orders:
  "orders (autoUpdateScan pf clk ct om)
     = fst (scanLoop clk ct (pendingToShippedSeconds om) (shippedToDeliveredSeconds om) 0
              (orders om) False)"
  by (simp add: autoUpdateScan_def Let_def split_beta saveToFile_def)

lemma autoUpdateScan_length:
  "length (orders (autoUpdateScan pf clk ct om)) = length (orders om)"
  by (simp add: autoUpdateScan_orders scanLoop_length)

lemma autoUpdateScan_nth:
  "k < length (orders om) \<Longrightarrow>
   orders (autoUpdateScan pf clk ct om) ! k
     = (if dueToShip ct (pendingToShippedSeconds om) (orders om ! k)
        then setStatus (clk k) SHIPPED (orders om ! k)
        else if dueToDeliver ct (shippedToDeliveredSeconds om) (orders om ! k)
        then setStatus (clk k) DELIVERED (orders om ! k)
        else orders om ! k)"
  using scanLoop_nth [of k "orders om" clk ct "pendingToShippedSeconds om"
      "shippedToDeliveredSeconds om" 0 False]
  by (simp add: autoUpdateScan_orders)

lemma someTransition_iff_due:
  "someTransition (orders om) (orders (autoUpdateScan pf clk ct om))
     = (\<exists>ord \<in> set (orders om). dueToShip ct (pendingToShippedSeconds om) ord
                                \<or> dueToDeliver ct (shippedToDeliveredSeconds om) ord)"
proof -
  have "status (orders (autoUpdateScan pf clk ct om) ! k) \<noteq> status (orders om ! k)
        \<longleftrightarrow> dueToShip ct (pendingToShippedSeconds om) (orders om ! k)
            \<or> dueToDeliver ct (shippedToDeliveredSeconds om) (orders om ! k)"
    if "k < length (orders om)" for k
    using autoUpdateScan_nth [OF that, of pf clk ct]
    by (auto simp: setStatus_def dueToShip_def dueToDeliver_def)
  then show ?thesis
    unfolding someTransition_def by (metis in_set_conv_nth)
qed

lemma autoUpdateScan_file:
  "ordersFile (autoUpdateScan pf clk ct om)
     = (if someTransition (orders om) (orders (autoUpdateScan pf clk ct om))
        then ordersFile (snd (saveToFile pf (om\<lparr>orders := orders (autoUpdateScan pf clk ct om)\<rparr>)))
        else ordersFile om)"
proof -
  let ?scan = "scanLoop clk ct (pendingToShippedSeconds om) (shippedToDeliveredSeconds om) 0
                 (orders om) False"
  have t: "someTransition (orders om) (fst ?scan) = snd ?scan"
    using someTransition_iff_due [of om pf clk ct]
    by (simp add: autoUpdateScan_orders scanLoop_needSave)
  show ?thesis
    unfolding autoUpdateScan_orders t
    by (simp add: autoUpdateScan_def Let_def split_beta)
qed

lemma autoUpdateScan_writes:
  "writes (ordersFile (autoUpdateScan pf clk ct om))
     = writes (ordersFile om)
       + (if someTransition (orders om) (orders (autoUpdateScan pf clk ct om))
             \<and> writable (ordersFile om) then 1 else 0)"
  unfolding autoUpdateScan_file [of pf clk ct om]
  by (simp add: saveToFile_def)

lemma autoUpdateScan_rank:
  assumes "k < length (orders om)"
  shows "statusRank (status (orders om ! k))
           \<le> statusRank (status (orders (autoUpdateScan pf clk ct om) ! k))"
    and "statusRank (status (orders (autoUpdateScan pf clk ct om) ! k))
           \<le> statusRank (status (orders om ! k)) + 1"
    and "status (orders om ! k) = DELIVERED
           \<Longrightarrow> orders (autoUpdateScan pf clk ct om) ! k = orders om ! k"
  using autoUpdateScan_nth [OF assms, of pf clk ct]
  by (auto simp: setStatus_def dueToShip_def dueToDeliver_def)

lemma autoUpdateOrderStatus_length:
  "length (orders (autoUpdateOrderStatus pf wakeups om)) = length (orders om)"
proof (induction wakeups arbitrary: om)
  case Nil
  then show ?case by simp
next
  case (Cons w wakeups)
  obtain clk ct where w: "w = (clk, ct)" by (cases w)
  show ?case using Cons.IH [of "autoUpdateScan pf clk ct om"] w
    by (simp add: autoUpdateScan_length)
qed

lemma autoUpdateOrderStatus_forward:
  "k < length (orders om) \<Longrightarrow>
   statusRank (status (orders om ! k))
      \<le> statusRank (status (orders (autoUpdateOrderStatus pf wakeups om) ! k))
   \<and> (status (orders om ! k) = DELIVERED
        \<longrightarrow> orders (autoUpdateOrderStatus pf wakeups om) ! k = orders om ! k)"
proof (induction wakeups arbitrary: om)
  case Nil
  then show ?case by simp
next
  case (Cons w wakeups)
  obtain clk ct where w: "w = (clk, ct)" by (cases w)
  let ?om1 = "autoUpdateScan pf clk ct om"
  show ?case
  proof (cases "autoUpdateEnabled om")
    case False
    then show ?thesis using w by simp
  next
    case True
    have k1: "k < length (orders ?om1)" using Cons.prems by (simp add: autoUpdateScan_length)
    have step: "autoUpdateOrderStatus pf (w # wakeups) om = autoUpdateOrderStatus pf wakeups ?om1"
      using True w by simp
    from Cons.IH [OF k1] autoUpdateScan_rank [OF Cons.prems, of pf clk ct]
    show ?thesis unfolding step by auto
  qed
qed

lemma autoUpdateScan_content:
  assumes "someTransition (orders om) (orders (autoUpdateScan pf clk ct om))"
    and "writable (ordersFile om)"
  shows "content (ordersFile (autoUpdateScan pf clk ct om))
           = csv_header @ [CHR 0x0A]
               @ concat (map (\<lambda>ord. orderRow pf ord @ [CHR 0x0A])
                           (orders (autoUpdateScan pf clk ct om)))"
  unfolding autoUpdateScan_file [of pf clk ct om]
  using assms by (simp add: saveToFile_def)

text \<open>
  One scan and any number of scans, for every collection. For the order at every
  position \<open>k\<close>: an order that is Pending and whose elapsed time is at least
  \<open>pendingToShippedSeconds\<close> becomes Shipped; otherwise an order that is Shipped and
  whose elapsed time is at least \<open>shippedToDeliveredSeconds\<close> becomes Delivered; any
  other order is left as it is; no order advances by more than one step in one
  scan; and over any number of scans of the scheduler thread
  (\<open>autoUpdateOrderStatus\<close>) no status moves backward and a Delivered order stays
  Delivered. The file after the scan is the file after one \<open>saveToFile\<close> of the
  scanned collection when a transition occurred and the old file otherwise.

  The elapsed time is the one the scan computes (\<open>dueToShip\<close>, \<open>dueToDeliver\<close>); it
  is the time that has passed since the last status change whenever that fits a
  \<^verbatim>\<open>time_t\<close> (\<open>dueToShip_elapsed\<close>, \<open>dueToDeliver_elapsed\<close>).
\<close>

lemma autoUpdateScan_transitions:
  "(\<forall>k < length (orders om).
       (dueToShip currentTime (pendingToShippedSeconds om) (orders om ! k)
          \<longrightarrow> status (orders (autoUpdateScan pf clk currentTime om) ! k) = SHIPPED)
     \<and> (\<not> dueToShip currentTime (pendingToShippedSeconds om) (orders om ! k)
          \<and> dueToDeliver currentTime (shippedToDeliveredSeconds om) (orders om ! k)
          \<longrightarrow> status (orders (autoUpdateScan pf clk currentTime om) ! k) = DELIVERED)
     \<and> (\<not> dueToShip currentTime (pendingToShippedSeconds om) (orders om ! k)
          \<and> \<not> dueToDeliver currentTime (shippedToDeliveredSeconds om) (orders om ! k)
          \<longrightarrow> orders (autoUpdateScan pf clk currentTime om) ! k = orders om ! k)
     \<and> statusRank (status (orders (autoUpdateScan pf clk currentTime om) ! k))
          \<le> statusRank (status (orders om ! k)) + 1
     \<and> statusRank (status (orders om ! k))
          \<le> statusRank (status (orders (autoUpdateOrderStatus pf wakeups om) ! k))
     \<and> (status (orders om ! k) = DELIVERED
          \<longrightarrow> status (orders (autoUpdateOrderStatus pf wakeups om) ! k) = DELIVERED))
   \<and> length (orders (autoUpdateScan pf clk currentTime om)) = length (orders om)
   \<and> length (orders (autoUpdateOrderStatus pf wakeups om)) = length (orders om)
   \<and> ordersFile (autoUpdateScan pf clk currentTime om)
       = (if someTransition (orders om) (orders (autoUpdateScan pf clk currentTime om))
          then ordersFile (snd (saveToFile pf
                 (om\<lparr>orders := orders (autoUpdateScan pf clk currentTime om)\<rparr>)))
          else ordersFile om)
   \<and> writes (ordersFile (autoUpdateScan pf clk currentTime om))
       = writes (ordersFile om)
         + (if someTransition (orders om) (orders (autoUpdateScan pf clk currentTime om))
               \<and> writable (ordersFile om) then 1 else 0)"
proof -
  have per_order: "(dueToShip currentTime (pendingToShippedSeconds om) (orders om ! k)
          \<longrightarrow> status (orders (autoUpdateScan pf clk currentTime om) ! k) = SHIPPED)
     \<and> (\<not> dueToShip currentTime (pendingToShippedSeconds om) (orders om ! k)
          \<and> dueToDeliver currentTime (shippedToDeliveredSeconds om) (orders om ! k)
          \<longrightarrow> status (orders (autoUpdateScan pf clk currentTime om) ! k) = DELIVERED)
     \<and> (\<not> dueToShip currentTime (pendingToShippedSeconds om) (orders om ! k)
          \<and> \<not> dueToDeliver currentTime (shippedToDeliveredSeconds om) (orders om ! k)
          \<longrightarrow> orders (autoUpdateScan pf clk currentTime om) ! k = orders om ! k)
     \<and> statusRank (status (orders (autoUpdateScan pf clk currentTime om) ! k))
          \<le> statusRank (status (orders om ! k)) + 1
     \<and> statusRank (status (orders om ! k))
          \<le> statusRank (status (orders (autoUpdateOrderStatus pf wakeups om) ! k))
     \<and> (status (orders om ! k) = DELIVERED
          \<longrightarrow> status (orders (autoUpdateOrderStatus pf wakeups om) ! k) = DELIVERED)"
    if k: "k < length (orders om)" for k
    using autoUpdateScan_nth [OF k, of pf clk currentTime]
      autoUpdateScan_rank(2) [OF k, of pf clk currentTime]
      autoUpdateOrderStatus_forward [OF k, of pf wakeups]
    by (auto simp: setStatus_def)
  show ?thesis
    using per_order autoUpdateScan_length [of pf clk currentTime om]
      autoUpdateOrderStatus_length [of pf wakeups om]
      autoUpdateScan_file [of pf clk currentTime om]
      autoUpdateScan_writes [of pf clk currentTime om]
    by blast
qed

text \<open>
  The scan at the manager with four orders, scanned at 115 with the durations 10
  and 20: the order Pending since 100 becomes Shipped, the order Shipped since 105
  stays, the Delivered order stays Delivered, the order Shipped since 95 becomes
  Delivered, and the file is rewritten once.
\<close>

lemma autoUpdateScan_example:
  "dueToShip 115 (pendingToShippedSeconds example_queue) (orders example_queue ! 0)
   \<and> status (orders (autoUpdateScan pf_example (\<lambda>i. 115) 115 example_queue) ! 0) = SHIPPED
   \<and> \<not> dueToShip 115 (pendingToShippedSeconds example_queue) (orders example_queue ! 1)
   \<and> \<not> dueToDeliver 115 (shippedToDeliveredSeconds example_queue) (orders example_queue ! 1)
   \<and> orders (autoUpdateScan pf_example (\<lambda>i. 115) 115 example_queue) ! 1 = orders example_queue ! 1
   \<and> status (orders example_queue ! 2) = DELIVERED
   \<and> status (orders (autoUpdateOrderStatus pf_example [(\<lambda>i. 115, 115), (\<lambda>i. 140, 140)]
                example_queue) ! 2) = DELIVERED
   \<and> dueToDeliver 115 (shippedToDeliveredSeconds example_queue) (orders example_queue ! 3)
   \<and> status (orders (autoUpdateScan pf_example (\<lambda>i. 115) 115 example_queue) ! 3) = DELIVERED
   \<and> writable (ordersFile example_queue)
   \<and> writes (ordersFile (autoUpdateScan pf_example (\<lambda>i. 115) 115 example_queue))
       = writes (ordersFile example_queue) + 1"
proof -
  let ?om' = "autoUpdateScan pf_example (\<lambda>i. 115) 115 example_queue"
  note inst = autoUpdateScan_transitions
    [of example_queue 115 pf_example "\<lambda>i. 115" "[(\<lambda>i. 115, 115), (\<lambda>i. 140, 140)]"]
  have len: "length (orders example_queue) = 4"
    by (simp add: example_queue_def)
  have d0: "dueToShip 115 (pendingToShippedSeconds example_queue) (orders example_queue ! 0)"
    by (simp add: dueToShip_def time_t_diff_def example_queue_def example_manager_def
        example_order_def)
  have n1: "\<not> dueToShip 115 (pendingToShippedSeconds example_queue) (orders example_queue ! 1)"
      "\<not> dueToDeliver 115 (shippedToDeliveredSeconds example_queue) (orders example_queue ! 1)"
    by (simp_all add: dueToShip_def dueToDeliver_def time_t_diff_def example_queue_def
        example_manager_def example_order_def)
  have s2: "status (orders example_queue ! 2) = DELIVERED"
    by (simp add: example_queue_def)
  have d3: "\<not> dueToShip 115 (pendingToShippedSeconds example_queue) (orders example_queue ! 3)"
      "dueToDeliver 115 (shippedToDeliveredSeconds example_queue) (orders example_queue ! 3)"
    by (simp_all add: dueToShip_def dueToDeliver_def time_t_diff_def example_queue_def
        example_manager_def example_order_def)
  have w: "writable (ordersFile example_queue)"
    by (simp add: example_queue_def example_manager_def)
  from inst have k0: "dueToShip 115 (pendingToShippedSeconds example_queue) (orders example_queue ! 0)
          \<longrightarrow> status (orders ?om' ! 0) = SHIPPED"
    using len by (elim conjE allE [of _ 0]) simp
  with d0 have r0: "status (orders ?om' ! 0) = SHIPPED" by simp
  from inst have k1: "\<not> dueToShip 115 (pendingToShippedSeconds example_queue) (orders example_queue ! 1)
          \<and> \<not> dueToDeliver 115 (shippedToDeliveredSeconds example_queue) (orders example_queue ! 1)
          \<longrightarrow> orders ?om' ! 1 = orders example_queue ! 1"
    using len by (elim conjE allE [of _ 1]) simp
  with n1 have r1: "orders ?om' ! 1 = orders example_queue ! 1" by simp
  from inst have k2: "status (orders example_queue ! 2) = DELIVERED
          \<longrightarrow> status (orders (autoUpdateOrderStatus pf_example
                 [(\<lambda>i. 115, 115), (\<lambda>i. 140, 140)] example_queue) ! 2) = DELIVERED"
    using len by (elim conjE allE [of _ 2]) simp
  with s2 have r2: "status (orders (autoUpdateOrderStatus pf_example
      [(\<lambda>i. 115, 115), (\<lambda>i. 140, 140)] example_queue) ! 2) = DELIVERED" by simp
  from inst have k3: "\<not> dueToShip 115 (pendingToShippedSeconds example_queue) (orders example_queue ! 3)
          \<and> dueToDeliver 115 (shippedToDeliveredSeconds example_queue) (orders example_queue ! 3)
          \<longrightarrow> status (orders ?om' ! 3) = DELIVERED"
    using len by (elim conjE allE [of _ 3]) simp
  with d3 have r3: "status (orders ?om' ! 3) = DELIVERED" by simp
  have "status (orders example_queue ! 0) = PENDING" using d0 by (simp add: dueToShip_def)
  with r0 len have tr: "someTransition (orders example_queue) (orders ?om')"
    unfolding someTransition_def by (intro exI [of _ 0]) simp
  from inst have "writes (ordersFile ?om')
       = writes (ordersFile example_queue)
         + (if someTransition (orders example_queue) (orders ?om')
               \<and> writable (ordersFile example_queue) then 1 else 0)"
    by (elim conjE)
  with tr w have r4: "writes (ordersFile ?om') = writes (ordersFile example_queue) + 1"
    by simp
  from d0 r0 n1 r1 s2 r2 d3 r3 w r4 show ?thesis by simp
qed


subsection \<open>The mutex around a mutation and its write\<close>

lemma sections_replicate_Mutate:
  "sections cur n (replicate k Mutate @ rest)
     = replicate k (Mutate, cur) @ sections cur n rest"
  by (induction k) simp_all

lemma scanLoop_steps_replicate:
  "scanLoop_steps ct p2s s2d os
     = replicate (length (filter (\<lambda>ord. dueToShip ct p2s ord \<or> dueToDeliver ct s2d ord) os))
         Mutate"
  by (induction os) (auto simp: Let_def dueToShip_def dueToDeliver_def)

lemma scanLoop_steps_needSave:
  "(Mutate \<in> set (scanLoop_steps ct p2s s2d os))
     = (\<exists>ord \<in> set os. dueToShip ct p2s ord \<or> dueToDeliver ct s2d ord)"
  by (induction os) (auto simp: Let_def dueToShip_def dueToDeliver_def)

lemma sections_saveToFile_steps:
  "sections None (Suc 0) (saveToFile_steps f) = (if writable f then writeAfterRelease else [])"
  by (simp add: saveToFile_steps_def writeAfterRelease_def)

lemma sections_createOrder_steps:
  "sections None 0 (createOrder_steps pf now uid cartItems address om st)
     = (if stockSuffices st cartItems
        then [(Acquire, Some 0), (Mutate, Some 0), (Release, Some 0)]
               @ (if writable (ordersFile om) then writeAfterRelease else [])
        else [])"
proof -
  obtain res st' m where new: "Order_new pf now uid cartItems address (itemManager om) st
      = (res, st', m)"
    by (cases "Order_new pf now uid cartItems address (itemManager om) st") auto
  have isl: "isl res = (\<not> stockSuffices st cartItems)"
    using Order_new_isl [of pf now uid cartItems address "itemManager om" st] new by simp
  show ?thesis
  proof (cases res)
    case (Inl e)
    with new isl show ?thesis by (simp add: createOrder_steps_def)
  next
    case (Inr ord)
    with isl have "stockSuffices st cartItems" by simp
    with new Inr show ?thesis
      by (simp add: createOrder_steps_def sections_saveToFile_steps)
  qed
qed

lemma sections_autoUpdateScan_steps:
  "sections None 0 (autoUpdateScan_steps ct om)
     = [(Acquire, Some 0)]
         @ replicate (length (filter (\<lambda>ord. dueToShip ct (pendingToShippedSeconds om) ord
                                         \<or> dueToDeliver ct (shippedToDeliveredSeconds om) ord)
                         (orders om))) (Mutate, Some 0)
         @ [(Release, Some 0)]
         @ (if (\<exists>ord \<in> set (orders om). dueToShip ct (pendingToShippedSeconds om) ord
                                       \<or> dueToDeliver ct (shippedToDeliveredSeconds om) ord)
               \<and> writable (ordersFile om)
            then writeAfterRelease else [])"
proof -
  let ?loop = "scanLoop_steps ct (pendingToShippedSeconds om) (shippedToDeliveredSeconds om)
                 (orders om)"
  let ?k = "length (filter (\<lambda>ord. dueToShip ct (pendingToShippedSeconds om) ord
                                 \<or> dueToDeliver ct (shippedToDeliveredSeconds om) ord)
                      (orders om))"
  let ?save = "if Mutate \<in> set ?loop then saveToFile_steps (ordersFile om) else []"
  have "sections None 0 (autoUpdateScan_steps ct om)
      = (Acquire, Some 0) # sections (Some 0) 0 (?loop @ Release # ?save)"
    by (simp add: autoUpdateScan_steps_def Let_def)
  also have "sections (Some 0) 0 (?loop @ Release # ?save)
      = replicate ?k (Mutate, Some 0) @ sections (Some 0) 0 (Release # ?save)"
    unfolding scanLoop_steps_replicate by (rule sections_replicate_Mutate)
  also have "sections (Some 0) 0 (Release # ?save)
      = (Release, Some 0) # sections None (Suc 0) ?save"
    by simp
  also have "sections None (Suc 0) ?save
      = (if (\<exists>ord \<in> set (orders om). dueToShip ct (pendingToShippedSeconds om) ord
                                     \<or> dueToDeliver ct (shippedToDeliveredSeconds om) ord)
             \<and> writable (ordersFile om)
         then writeAfterRelease else [])"
    unfolding scanLoop_steps_needSave
    by (simp add: sections_saveToFile_steps)
  finally show ?thesis by simp
qed

lemma sections_updateOrderStatus_steps:
  assumes "findOrderById oid om = Some ord" "writable (ordersFile om)"
  shows "drop 3 (sections None 0 (updateOrderStatus_steps oid om)) = writeAfterRelease"
  using assms
  by (simp add: updateOrderStatus_steps_def findOrderById_steps_def saveToFile_steps_def
      writeAfterRelease_def)

lemma findOrderById_example:
  "findOrderById ''ORD0000000000000006'' example_holder = Some example_order"
  by (simp add: findOrderById_def example_holder_def example_order_def)

lemma example_queue_due:
  "filter (\<lambda>ord. dueToShip 115 (pendingToShippedSeconds example_queue) ord
                \<or> dueToDeliver 115 (shippedToDeliveredSeconds example_queue) ord)
       (orders example_queue)
     = [orders example_queue ! 0, orders example_queue ! 3]"
  by (simp add: dueToShip_def dueToDeliver_def time_t_diff_def example_queue_def
      example_manager_def example_order_def)

text \<open>
  Claim C3 says that every mutation of the order collection (creation, status
  change, scheduler transition) and the persistence write that goes with it are
  performed while holding the orders mutex for one whole critical section. In the
  source no call holds the mutex from the mutation to the end of the write:
  \<^verbatim>\<open>createOrder\<close> and the scan give the mutex back at the end of the block around the
  mutation, and \<^verbatim>\<open>saveToFile\<close>, called afterwards, opens the file and writes its
  header with the mutex free and takes the mutex again for the rows. For the order
  of two apples, for a status change of that order and for the scan of the four
  orders at 115, the mutation does not lie in the critical section in which the
  rows are written, and the file is opened in none.
\<close>

theorem mutation_and_write_counterexample:
  "fst (createOrder pf_example 100 ''u1'' [(0, 2)] ''addr'' example_manager example_store)
       = Inr (Some example_order)
   \<and> sections None 0 (createOrder_steps pf_example 100 ''u1'' [(0, 2)] ''addr'' example_manager
                         example_store)
       = [(Acquire, Some 0), (Mutate, Some 0), (Release, Some 0),
          (OpenFile, None), (WriteHeader, None),
          (Acquire, Some 1), (WriteRows, Some 1), (Release, Some 1)]
   \<and> \<not> oneCriticalSection (createOrder_steps pf_example 100 ''u1'' [(0, 2)] ''addr''
                              example_manager example_store)
   \<and> fst (updateOrderStatus pf_example 110 ''ORD0000000000000006'' SHIPPED example_holder)
   \<and> sections None 0 (updateOrderStatus_steps ''ORD0000000000000006'' example_holder)
       = [(Acquire, Some 0), (Release, Some 0), (Mutate, None),
          (OpenFile, None), (WriteHeader, None),
          (Acquire, Some 1), (WriteRows, Some 1), (Release, Some 1)]
   \<and> \<not> oneCriticalSection (updateOrderStatus_steps ''ORD0000000000000006'' example_holder)
   \<and> someTransition (orders example_queue)
        (orders (autoUpdateScan pf_example (\<lambda>i. 115) 115 example_queue))
   \<and> sections None 0 (autoUpdateScan_steps 115 example_queue)
       = [(Acquire, Some 0), (Mutate, Some 0), (Mutate, Some 0), (Release, Some 0),
          (OpenFile, None), (WriteHeader, None),
          (Acquire, Some 1), (WriteRows, Some 1), (Release, Some 1)]
   \<and> \<not> oneCriticalSection (autoUpdateScan_steps 115 example_queue)"
proof -
  have w: "writable (ordersFile example_manager)" "writable (ordersFile example_holder)"
      "writable (ordersFile example_queue)"
    by (simp_all add: example_manager_def example_holder_def example_queue_def)
  have new: "Order_new pf_example 100 ''u1'' [(0, 2)] ''addr'' (itemManager example_manager)
               example_store
             = (Inr example_order, example_store(0 := apple\<lparr>stock := 3\<rparr>), None)"
    by (simp add: Order_new_example example_manager_def)
  have c0: "fst (createOrder pf_example 100 ''u1'' [(0, 2)] ''addr'' example_manager example_store)
       = Inr (Some example_order)"
    by (simp add: createOrder_def new Let_def)
  have c1: "createOrder_steps pf_example 100 ''u1'' [(0, 2)] ''addr'' example_manager example_store
      = [Acquire, Mutate, Release, OpenFile, WriteHeader, Acquire, WriteRows, Release]"
    by (simp add: createOrder_steps_def new saveToFile_steps_def w)
  have u0: "fst (updateOrderStatus pf_example 110 ''ORD0000000000000006'' SHIPPED example_holder)"
    by (simp add: updateOrderStatus_def findOrderById_example Let_def)
  have u1: "updateOrderStatus_steps ''ORD0000000000000006'' example_holder
      = [Acquire, Release, Mutate, OpenFile, WriteHeader, Acquire, WriteRows, Release]"
    by (simp add: updateOrderStatus_steps_def findOrderById_steps_def findOrderById_example
        saveToFile_steps_def w)
  have len: "length (orders example_queue) = 4" by (simp add: example_queue_def)
  have due: "dueToShip 115 (pendingToShippedSeconds example_queue) (orders example_queue ! 0)"
    by (simp add: dueToShip_def time_t_diff_def example_queue_def example_manager_def
        example_order_def)
  then have "\<exists>ord \<in> set (orders example_queue).
      dueToShip 115 (pendingToShippedSeconds example_queue) ord
      \<or> dueToDeliver 115 (shippedToDeliveredSeconds example_queue) ord"
    using len by (intro bexI [of _ "orders example_queue ! 0"]) simp_all
  then have s0: "someTransition (orders example_queue)
        (orders (autoUpdateScan pf_example (\<lambda>i. 115) 115 example_queue))"
    by (simp add: someTransition_iff_due)
  have s1: "autoUpdateScan_steps 115 example_queue
      = [Acquire, Mutate, Mutate, Release, OpenFile, WriteHeader, Acquire, WriteRows, Release]"
    by (simp add: autoUpdateScan_steps_def scanLoop_steps_replicate example_queue_due Let_def
        saveToFile_steps_def w numeral_2_eq_2)
  show ?thesis
    unfolding c1 u1 s1 using c0 u0 s0
    by (simp add: oneCriticalSection_def changesOrWrites_def)
qed

text \<open>
  Claim C3 as amended. Creation and the scheduler's scan change the order
  collection while holding the orders mutex and release it before the persistence
  write begins; the persistence write that goes with a mutation (creation, status
  change, scheduler transition) opens the file and writes the header line with the
  mutex free, then takes the mutex a second time and writes the rows of the orders
  while holding it. The mutation in memory and the write to the file are two
  critical sections with the mutex free in between, not one atomic step.

  A creation succeeds when the stock suffices; a scan changes one order for each
  order that is due and writes when some order changed; a write takes place when
  the file can be opened. For a status change the three steps before the write are
  those of \<^verbatim>\<open>findOrderById\<close> and of \<^verbatim>\<open>setStatus\<close>.
\<close>

theorem mutation_and_write_two_sections:
  "(stockSuffices st cartItems \<longrightarrow>
      sections None 0 (createOrder_steps pf now uid cartItems address om st)
        = [(Acquire, Some 0), (Mutate, Some 0), (Release, Some 0)]
            @ (if writable (ordersFile om) then writeAfterRelease else []))
   \<and> (\<not> stockSuffices st cartItems \<longrightarrow>
        createOrder_steps pf now uid cartItems address om st = [])
   \<and> sections None 0 (autoUpdateScan_steps currentTime om)
       = [(Acquire, Some 0)]
           @ replicate
               (length (filter (\<lambda>ord. dueToShip currentTime (pendingToShippedSeconds om) ord
                                     \<or> dueToDeliver currentTime (shippedToDeliveredSeconds om) ord)
                          (orders om)))
               (Mutate, Some 0)
           @ [(Release, Some 0)]
           @ (if someTransition (orders om) (orders (autoUpdateScan pf clk currentTime om))
                 \<and> writable (ordersFile om)
              then writeAfterRelease else [])
   \<and> (findOrderById oid om \<noteq> None \<and> writable (ordersFile om) \<longrightarrow>
        drop 3 (sections None 0 (updateOrderStatus_steps oid om)) = writeAfterRelease)
   \<and> writeAfterRelease
       = [(OpenFile, None), (WriteHeader, None), (Acquire, Some 1), (WriteRows, Some 1),
          (Release, Some 1)]"
proof -
  have a: "sections None 0 (createOrder_steps pf now uid cartItems address om st)
        = [(Acquire, Some 0), (Mutate, Some 0), (Release, Some 0)]
            @ (if writable (ordersFile om) then writeAfterRelease else [])"
    if "stockSuffices st cartItems"
    using that by (simp add: sections_createOrder_steps)
  have b: "createOrder_steps pf now uid cartItems address om st = []"
    if "\<not> stockSuffices st cartItems"
  proof -
    from that Order_new_isl [of pf now uid cartItems address "itemManager om" st]
    have "isl (fst (Order_new pf now uid cartItems address (itemManager om) st))" by simp
    then show ?thesis
      by (auto simp: createOrder_steps_def split: prod.splits sum.splits)
  qed
  have c: "sections None 0 (autoUpdateScan_steps currentTime om)
       = [(Acquire, Some 0)]
           @ replicate
               (length (filter (\<lambda>ord. dueToShip currentTime (pendingToShippedSeconds om) ord
                                     \<or> dueToDeliver currentTime (shippedToDeliveredSeconds om) ord)
                          (orders om)))
               (Mutate, Some 0)
           @ [(Release, Some 0)]
           @ (if someTransition (orders om) (orders (autoUpdateScan pf clk currentTime om))
                 \<and> writable (ordersFile om)
              then writeAfterRelease else [])"
    unfolding someTransition_iff_due by (rule sections_autoUpdateScan_steps)
  have d: "drop 3 (sections None 0 (updateOrderStatus_steps oid om)) = writeAfterRelease"
    if "findOrderById oid om \<noteq> None \<and> writable (ordersFile om)"
    using that sections_updateOrderStatus_steps [of oid om] by auto
  show ?thesis using a b c d writeAfterRelease_def by blast
qed

text \<open>
  The theorem at the creation of the order of two apples, at the scan of the four
  orders at 115, where two orders are due, and at a status change of the order of
  two apples: each time the rows are written in the second critical section.
\<close>

theorem mutation_and_write_two_sections_witness:
  "stockSuffices example_store [(0, 2)] \<and> writable (ordersFile example_manager)
   \<and> sections None 0 (createOrder_steps pf_example 100 ''u1'' [(0, 2)] ''addr'' example_manager
                         example_store)
       = [(Acquire, Some 0), (Mutate, Some 0), (Release, Some 0),
          (OpenFile, None), (WriteHeader, None),
          (Acquire, Some 1), (WriteRows, Some 1), (Release, Some 1)]
   \<and> \<not> stockSuffices example_store [(0, 3), (1, 2)]
   \<and> createOrder_steps pf_example 100 ''u1'' [(0, 3), (1, 2)] ''addr'' example_manager
        example_store = []
   \<and> someTransition (orders example_queue)
        (orders (autoUpdateScan pf_example (\<lambda>i. 115) 115 example_queue))
   \<and> writable (ordersFile example_queue)
   \<and> sections None 0 (autoUpdateScan_steps 115 example_queue)
       = [(Acquire, Some 0), (Mutate, Some 0), (Mutate, Some 0), (Release, Some 0),
          (OpenFile, None), (WriteHeader, None),
          (Acquire, Some 1), (WriteRows, Some 1), (Release, Some 1)]
   \<and> findOrderById ''ORD0000000000000006'' example_holder = Some example_order
   \<and> writable (ordersFile example_holder)
   \<and> drop 3 (sections None 0 (updateOrderStatus_steps ''ORD0000000000000006'' example_holder))
       = [(OpenFile, None), (WriteHeader, None),
          (Acquire, Some 1), (WriteRows, Some 1), (Release, Some 1)]"
proof -
  have w: "writable (ordersFile example_manager)" "writable (ordersFile example_holder)"
      "writable (ordersFile example_queue)"
    by (simp_all add: example_manager_def example_holder_def example_queue_def)
  have s: "stockSuffices example_store [(0, 2)]"
      "\<not> stockSuffices example_store [(0, 3), (1, 2)]"
    by (simp_all add: example_store_def apple_def pear_def)
  have len: "length (orders example_queue) = 4" by (simp add: example_queue_def)
  have "dueToShip 115 (pendingToShippedSeconds example_queue) (orders example_queue ! 0)"
    by (simp add: dueToShip_def time_t_diff_def example_queue_def example_manager_def
        example_order_def)
  then have "\<exists>ord \<in> set (orders example_queue).
      dueToShip 115 (pendingToShippedSeconds example_queue) ord
      \<or> dueToDeliver 115 (shippedToDeliveredSeconds example_queue) ord"
    using len by (intro bexI [of _ "orders example_queue ! 0"]) simp_all
  then have t: "someTransition (orders example_queue)
        (orders (autoUpdateScan pf_example (\<lambda>i. 115) 115 example_queue))"
    by (simp add: someTransition_iff_due)
  note f = findOrderById_example
  note inst1 = mutation_and_write_two_sections
    [of example_store "[(0, 2)]" pf_example 100 "''u1''" "''addr''" example_manager
        115 "\<lambda>i. 115" "''ORD0000000000000006''"]
  from inst1 s(1) w(1)
  have a: "sections None 0 (createOrder_steps pf_example 100 ''u1'' [(0, 2)] ''addr''
                              example_manager example_store)
       = [(Acquire, Some 0), (Mutate, Some 0), (Release, Some 0),
          (OpenFile, None), (WriteHeader, None),
          (Acquire, Some 1), (WriteRows, Some 1), (Release, Some 1)]"
    by simp
  note inst2 = mutation_and_write_two_sections
    [of example_store "[(0, 3), (1, 2)]" pf_example 100 "''u1''" "''addr''" example_queue
        115 "\<lambda>i. 115" "''ORD0000000000000006''"]
  from mutation_and_write_two_sections
    [of example_store "[(0, 3), (1, 2)]" pf_example 100 "''u1''" "''addr''" example_manager
        115 "\<lambda>i. 115" "''ORD0000000000000006''"] s(2)
  have b: "createOrder_steps pf_example 100 ''u1'' [(0, 3), (1, 2)] ''addr'' example_manager
        example_store = []"
    by blast
  from inst2 t w(3)
  have c: "sections None 0 (autoUpdateScan_steps 115 example_queue)
       = [(Acquire, Some 0), (Mutate, Some 0), (Mutate, Some 0), (Release, Some 0),
          (OpenFile, None), (WriteHeader, None),
          (Acquire, Some 1), (WriteRows, Some 1), (Release, Some 1)]"
    by (simp add: example_queue_due numeral_2_eq_2)
  from mutation_and_write_two_sections
    [of example_store "[(0, 2)]" pf_example 100 "''u1''" "''addr''" example_holder
        115 "\<lambda>i. 115" "''ORD0000000000000006''"] f w(2)
  have d: "drop 3 (sections None 0 (updateOrderStatus_steps ''ORD0000000000000006''
                                       example_holder))
       = [(OpenFile, None), (WriteHeader, None),
          (Acquire, Some 1), (WriteRows, Some 1), (Release, Some 1)]"
    by simp
  from s w t f a b c d show ?thesis by simp
qed

subsection \<open>Loading a record with an unknown status\<close>

lemma loadLines_member:
  "line \<in> set ls \<Longrightarrow> line \<noteq> [] \<Longrightarrow> loadLine pf line = Some ord
   \<Longrightarrow> ord \<in> set (loadLines pf ls)"
  by (induction ls) (auto split: option.splits)

text \<open>
  Claim C10. \<open>stringToStatus\<close> maps every string that is not one of the recognised
  status names (the Chinese and the English form of Pending, Shipped, Delivered) to
  \<open>PENDING\<close>, so that loading a saved record whose status field is damaged or unknown
  yields an order in status Pending without any failure.

  The record is a line of at least eight fields whose two times and total amount
  parse; \<open>loadLine\<close> returns the order with status \<open>PENDING\<close>, and when the line is a
  data line of a readable file, \<open>loadFromFile\<close> returns \<open>True\<close> with that order in
  the collection.
\<close>

theorem stringToStatus_unknown_is_pending:
  "(statusStr \<notin> statusNames \<longrightarrow> stringToStatus statusStr = PENDING)
   \<and> (8 \<le> length (parseCSVLine line)
        \<and> stoll (parseCSVLine line ! 3) = Inr t
        \<and> stod pf (parseCSVLine line ! 4) = Inr tot
        \<and> stoll (parseCSVLine line ! 7) = Inr tc
        \<and> parseCSVLine line ! 6 \<notin> statusNames
      \<longrightarrow> loadLine pf line
            = Some \<lparr>orderId = parseCSVLine line ! 0, userId = parseCSVLine line ! 1,
                    items = parseOrderItems pf (parseCSVLine line ! 2),
                    orderTime = t, totalAmount = tot,
                    shippingAddress = parseCSVLine line ! 5,
                    status = PENDING, statusChangeTime = tc\<rparr>
          \<and> (readable (ordersFile om) \<and> line \<noteq> []
               \<and> line \<in> set (drop 1 (getlines (CHR 0x0A) [] (content (ordersFile om))))
             \<longrightarrow> fst (loadFromFile pf om)
                 \<and> (\<exists>ord \<in> set (orders (snd (loadFromFile pf om))).
                       orderId ord = parseCSVLine line ! 0 \<and> status ord = PENDING)))"
proof -
  have unknown: "stringToStatus s = PENDING" if "s \<notin> statusNames" for s
    using that by (simp add: stringToStatus_def statusNames_def)
  have loaded: "loadLine pf line
            = Some \<lparr>orderId = parseCSVLine line ! 0, userId = parseCSVLine line ! 1,
                    items = parseOrderItems pf (parseCSVLine line ! 2),
                    orderTime = t, totalAmount = tot,
                    shippingAddress = parseCSVLine line ! 5,
                    status = PENDING, statusChangeTime = tc\<rparr>"
    if "8 \<le> length (parseCSVLine line)" "stoll (parseCSVLine line ! 3) = Inr t"
       "stod pf (parseCSVLine line ! 4) = Inr tot" "stoll (parseCSVLine line ! 7) = Inr tc"
       "parseCSVLine line ! 6 \<notin> statusNames"
    using that unknown [of "parseCSVLine line ! 6"] by (simp add: loadLine_def Let_def)
  have infile: "fst (loadFromFile pf om)
        \<and> (\<exists>ord \<in> set (orders (snd (loadFromFile pf om))).
               orderId ord = parseCSVLine line ! 0 \<and> status ord = PENDING)"
    if l: "loadLine pf line
            = Some \<lparr>orderId = parseCSVLine line ! 0, userId = parseCSVLine line ! 1,
                    items = parseOrderItems pf (parseCSVLine line ! 2),
                    orderTime = t, totalAmount = tot,
                    shippingAddress = parseCSVLine line ! 5,
                    status = PENDING, statusChangeTime = tc\<rparr>"
      and r: "readable (ordersFile om)" "line \<noteq> []"
        "line \<in> set (drop 1 (getlines (CHR 0x0A) [] (content (ordersFile om))))"
  proof -
    let ?ord = "\<lparr>orderId = parseCSVLine line ! 0, userId = parseCSVLine line ! 1,
                    items = parseOrderItems pf (parseCSVLine line ! 2),
                    orderTime = t, totalAmount = tot,
                    shippingAddress = parseCSVLine line ! 5,
                    status = PENDING, statusChangeTime = tc\<rparr>"
    from loadLines_member [OF r(3) r(2) l] r(1)
    have "?ord \<in> set (orders (snd (loadFromFile pf om)))"
      by (simp add: loadFromFile_def)
    moreover have "orderId ?ord = parseCSVLine line ! 0 \<and> status ?ord = PENDING" by simp
    ultimately have "\<exists>ord \<in> set (orders (snd (loadFromFile pf om))).
               orderId ord = parseCSVLine line ! 0 \<and> status ord = PENDING"
      by (rule bexI [rotated])
    then show ?thesis by (simp add: loadFromFile_def)
  qed
  show ?thesis using unknown loaded infile by blast
qed

text \<open>
  The theorem at a file of one record with the status text LOST: the record is
  loaded as a Pending order.
\<close>

theorem stringToStatus_unknown_is_pending_witness:
  "''LOST'' \<notin> statusNames
   \<and> stringToStatus ''LOST'' = PENDING
   \<and> parseCSVLine example_line ! 6 = ''LOST''
   \<and> loadLine pf_example example_line = Some loaded_order
   \<and> status loaded_order = PENDING
   \<and> readable example_file
   \<and> fst (loadFromFile pf_example (example_manager\<lparr>ordersFile := example_file\<rparr>))
   \<and> orders (snd (loadFromFile pf_example (example_manager\<lparr>ordersFile := example_file\<rparr>)))
       = [loaded_order]"
proof -
  have fields: "parseCSVLine example_line
      = [''ORD7'', ''u1'', ''A:apple:10:2'', ''100'', ''20'', ''addr'', ''LOST'', ''100'']"
    by (simp add: parseCSVLine_def example_line_def trim_def trim_ws_def)
  have nums: "stoll ''100'' = Inr 100" "stod pf_example ''20'' = Inr 20" "stoi ''2'' = Inr 2"
      "stod pf_example ''10'' = Inr 10"
    by (simp_all add: stoll_def stoi_def pf_example_def strto_int_def isspace_def isdigit_def
        digits_value_def digit_value_def LLONG_MAX_def LLONG_MIN_def INT_MAX_def INT_MIN_def)
  have its: "parseOrderItems pf_example ''A:apple:10:2''
      = [\<lparr>itemId_oi = ''A'', itemName_oi = ''apple'', price_oi = 10, quantity_oi = 2\<rparr>]"
    by (simp add: parseOrderItems_def field_at_def nums Let_def)
  have lost: "''LOST'' \<notin> statusNames"
    by (simp add: statusNames_def str_pending_def str_shipped_def str_delivered_def)
  have lines: "getlines (CHR 0x0A) [] (content example_file) = [''order_id,user_id'', example_line]"
    by (simp add: example_file_def example_line_def)
  note inst = stringToStatus_unknown_is_pending
    [of "''LOST''" example_line 100 pf_example 20 100
        "example_manager\<lparr>ordersFile := example_file\<rparr>"]
  from inst lost have a: "stringToStatus ''LOST'' = PENDING" by blast
  from inst fields nums its lost
  have b: "loadLine pf_example example_line = Some loaded_order"
    by (simp add: loaded_order_def)
  have ne: "example_line \<noteq> []" by (simp add: example_line_def)
  have r: "readable example_file" by (simp add: example_file_def)
  have c: "orders (snd (loadFromFile pf_example (example_manager\<lparr>ordersFile := example_file\<rparr>)))
       = [loaded_order]"
    using r ne b by (simp add: loadFromFile_def lines)
  from inst fields nums lost r ne lines
  have d: "fst (loadFromFile pf_example (example_manager\<lparr>ordersFile := example_file\<rparr>))"
    by simp
  from lost a fields b r c d show ?thesis by (simp add: loaded_order_def)
qed

end
